theory Spec2Isabelle
  imports Main "HOL-Library.Multiset" "HOL-Library.AList"
begin

section \<open>JavaScript values used by the board\<close>

text \<open>
  The board keeps its data in plain JavaScript objects used as dictionaries and in
  arrays. An object is modelled by the list of its own enumerable properties, in the
  order in which \<^verbatim>\<open>Object.keys\<close> enumerates them: keys that are array indices first,
  in ascending numeric order, then all other keys in the order of their creation.
  Numbers are integers (\<^verbatim>\<open>order\<close> ranks, array positions, DOM client sizes).
  Two item objects are never the same object stored twice. A key may name a member of
  \<^verbatim>\<open>Object.prototype\<close>: the own property then shadows the inherited member, which
  matters where the code calls the member on the object (\<open>callHasOwnProperty\<close> below).
  The one key an assignment cannot create is \<^verbatim>\<open>__proto__\<close> (\<open>js_assign\<close> below):
  \<^verbatim>\<open>prepareBoardItems\<close>, which assigns under the lane of every item, is modelled with
  it; the handlers of the board work on a state without that key.
\<close>

datatype error = TypeError

type_synonym 'v js_object = "(string \<times> 'v) list"

definition is_digit :: "char \<Rightarrow> bool" where
  "is_digit c \<longleftrightarrow> 48 \<le> (of_char c :: nat) \<and> (of_char c :: nat) \<le> 57"

definition index_value :: "string \<Rightarrow> nat" where
  "index_value s = foldl (\<lambda>n c. 10 * n + ((of_char c :: nat) - 48)) 0 s"

text \<open>
  An array index is the canonical decimal numeral of an integer between \<open>0\<close> and
  \<open>2\<^sup>3\<^sup>2 - 2\<close>: digits only, no leading zero except for \<^verbatim>\<open>"0"\<close> itself.
\<close>

definition is_array_index :: "string \<Rightarrow> bool" where
  "is_array_index s \<longleftrightarrow>
     0 < length s \<and> list_all is_digit s \<and>
     (length s = 1 \<or> 49 \<le> (of_char (hd s) :: nat)) \<and>
     index_value s \<le> 4294967294"

definition js_keys :: "'v js_object \<Rightarrow> string list" where
  "js_keys obj = map fst obj"

definition js_get :: "'v js_object \<Rightarrow> string \<Rightarrow> 'v option" where
  "js_get obj k = map_of obj k"

definition hasOwnProperty :: "'v js_object \<Rightarrow> string \<Rightarrow> bool" where
  "hasOwnProperty obj k \<longleftrightarrow> k \<in> set (js_keys obj)"

fun insert_index :: "string \<Rightarrow> 'v \<Rightarrow> 'v js_object \<Rightarrow> 'v js_object" where
  "insert_index k v [] = [(k, v)]"
| "insert_index k v ((k', v') # rest) =
     (if is_array_index k' \<and> index_value k' < index_value k
      then (k', v') # insert_index k v rest
      else (k, v) # (k', v') # rest)"

text \<open>
  The assignment \<^verbatim>\<open>obj[k] = v\<close>: an existing property keeps its place; a new array
  index goes among the array indices, any other new key goes last.
\<close>

definition js_set :: "'v js_object \<Rightarrow> string \<Rightarrow> 'v \<Rightarrow> 'v js_object" where
  "js_set obj k v =
     (if hasOwnProperty obj k then AList.update k v obj
      else if is_array_index k then insert_index k v obj
      else obj @ [(k, v)])"

text \<open>
  The assignment \<^verbatim>\<open>obj[k] = v\<close> when \<^verbatim>\<open>k\<close> may be any string: the key \<^verbatim>\<open>__proto__\<close>
  names the accessor of \<^verbatim>\<open>Object.prototype\<close>, so assigning to it replaces the prototype
  of the object (by an array, which inherits from \<^verbatim>\<open>Object.prototype\<close> in its turn) and
  creates no property.
\<close>

definition js_assign :: "'v js_object \<Rightarrow> string \<Rightarrow> 'v \<Rightarrow> 'v js_object" where
  "js_assign obj k v = (if k = ''__proto__'' then obj else js_set obj k v)"

text \<open>
  The call \<^verbatim>\<open>obj.hasOwnProperty(k)\<close>: the method is looked up on the object first. An own
  property named \<^verbatim>\<open>hasOwnProperty\<close> (in \<^verbatim>\<open>prepareBoardItems\<close> its value is an array of
  items) shadows the method of \<^verbatim>\<open>Object.prototype\<close>, and calling it throws a TypeError.
\<close>

definition callHasOwnProperty :: "'v js_object \<Rightarrow> string \<Rightarrow> error + bool" where
  "callHasOwnProperty obj k =
     (if hasOwnProperty obj ''hasOwnProperty'' then Inl TypeError
      else Inr (hasOwnProperty obj k))"

text \<open>
  \<^verbatim>\<open>xs.reduce(f, init)\<close> with a callback that may throw: the first error ends the
  reduction.
\<close>

fun js_reduce :: "('a \<Rightarrow> 'b \<Rightarrow> error + 'a) \<Rightarrow> 'b list \<Rightarrow> 'a \<Rightarrow> error + 'a" where
  "js_reduce f [] acc = Inr acc"
| "js_reduce f (x # xs) acc =
     (case f acc x of
        Inl e \<Rightarrow> Inl e
      | Inr acc' \<Rightarrow> js_reduce f xs acc')"

text \<open>
  \<^verbatim>\<open>xs.splice(start, deleteCount, ...items)\<close> returns the removed elements and leaves
  the array changed; a negative start counts from the end, and both arguments are
  clamped to the array.
\<close>

definition js_splice :: "int \<Rightarrow> int \<Rightarrow> 'a list \<Rightarrow> 'a list \<Rightarrow> 'a list \<times> 'a list" where
  "js_splice start deleteCount items xs =
     (let len = int (length xs);
          s = (if start < 0 then max (len + start) 0 else min start len);
          dc = min (max deleteCount 0) (len - s)
      in (take (nat dc) (drop (nat s) xs),
          take (nat s) xs @ items @ drop (nat (s + dc)) xs))"

text \<open>\<^verbatim>\<open>xs.slice(0, end)\<close>; a negative end counts from the end of the array.\<close>

definition js_slice0 :: "int \<Rightarrow> 'a list \<Rightarrow> 'a list" where
  "js_slice0 e xs =
     (let len = int (length xs);
          f = (if e < 0 then max (len + e) 0 else min e len)
      in take (nat f) xs)"

fun js_indexOf :: "'a list \<Rightarrow> 'a \<Rightarrow> int" where
  "js_indexOf [] x = - 1"
| "js_indexOf (y # ys) x =
     (if y = x then 0
      else (let r = js_indexOf ys x in if r < 0 then - 1 else r + 1))"

text \<open>\<^verbatim>\<open>xs.map(f)\<close> with the callback given the element and its index.\<close>

definition js_map_index :: "('a \<Rightarrow> int \<Rightarrow> 'b) \<Rightarrow> 'a list \<Rightarrow> 'b list" where
  "js_map_index f xs = map (\<lambda>(i, x). f x (int i)) (enumerate 0 xs)"

section \<open>Data model\<close>

text \<open>
  A lane is \<^verbatim>\<open>{ title }\<close>. The lanes of a board are an object from lane keys to lanes.
\<close>

record TBoardLane =
  title :: string

type_synonym TBoardLanes = "TBoardLane js_object"

text \<open>
  Modelled from the spec: the item types \<^verbatim>\<open>IBoardItem\<close> and \<^verbatim>\<open>IPreparedBoardItem\<close> are
  declared in \<^verbatim>\<open>BoardItem.tsx\<close>, which is not among the sources. An item is
  \<^verbatim>\<open>{ lane, title, order, ...custom fields }\<close>; a prepared item also carries its key,
  \<^verbatim>\<open>itemKey\<close>. These are the fields the board reads and writes; custom fields play no part.
\<close>

record IBoardItem =
  lane :: string
  title :: string
  order :: int

record IPreparedBoardItem = IBoardItem +
  itemKey :: string

type_synonym IPreparedBoardItems = "IPreparedBoardItem list js_object"

type_synonym TPlaceholderPosition = "(int \<times> int \<times> int \<times> int) option"

section \<open>Placeholder geometry\<close>

text \<open>
  \<^verbatim>\<open>getClientYChildren\<close> and \<^verbatim>\<open>getPlaceholderPosition\<close> of \<^verbatim>\<open>Board.tsx\<close>.
  The part of a DOM element the board reads: the attribute
  \<^verbatim>\<open>data-rbd-draggable-id\<close> (\<open>None\<close> when \<^verbatim>\<open>getAttribute\<close> gives null), the client
  size, the parent node (a handle, \<open>None\<close> for a detached element) and the children.
\<close>

datatype element = Element
  (data_rbd_draggable_id: "string option")
  (clientHeight: int)
  (clientWidth: int)
  (parentNode: "nat option")
  (children: "element list")

definition getClientYChildren :: "element \<Rightarrow> string \<Rightarrow> int \<Rightarrow> element list" where
  "getClientYChildren parent draggableId endIndex =
     js_slice0 endIndex
       (filter (\<lambda>child. case data_rbd_draggable_id child of
                           None \<Rightarrow> False
                         | Some childDraggableId \<Rightarrow> childDraggableId \<noteq> draggableId)
               (children parent))"

definition getPlaceholderPosition :: "element option \<Rightarrow> element list \<Rightarrow> TPlaceholderPosition" where
  "getPlaceholderPosition draggable clientYChildren =
     (case draggable of
        None \<Rightarrow> None
      | Some d \<Rightarrow>
          if parentNode d = None then None
          else
            (let clientY = foldl (\<lambda>acc child. acc + clientHeight child + 8) 2 clientYChildren;
                 clientX = 20
             in Some (clientX, clientY, clientWidth d, clientHeight d)))"

section \<open>Preparing the items of a board\<close>

text \<open>
  \<^verbatim>\<open>prepareBoardItems\<close> first groups the items by their \<^verbatim>\<open>lane\<close> field, in the order of
  \<^verbatim>\<open>Object.keys(items)\<close> (the reduction runs over the entries, each key with the item
  stored under it), writing each item's key into the item; then it builds the
  result from the keys of \<^verbatim>\<open>lanes\<close>, sorting each group with the comparator
  \<^verbatim>\<open>(a, b) => a.order - b.order\<close>. The sort of an array is stable.
  Both reductions ask \<^verbatim>\<open>hasOwnProperty\<close> of the object of groups, whose keys are the
  \<^verbatim>\<open>lane\<close> fields of the items: the first \<^verbatim>\<open>acc.hasOwnProperty(item.lane)\<close>, the second
  \<^verbatim>\<open>unsortedPreparedBoardItems.hasOwnProperty(laneKey)\<close>. A branch that reads a group
  the object does not have would call a method of \<^verbatim>\<open>undefined\<close>.
\<close>

definition withItemKey :: "IBoardItem \<Rightarrow> string \<Rightarrow> IPreparedBoardItem" where
  "withItemKey item k =
     \<lparr>lane = lane item, title = IBoardItem.title item, order = order item, itemKey = k\<rparr>"

definition groupItem ::
  "IPreparedBoardItems \<Rightarrow> string \<times> IBoardItem \<Rightarrow> error + IPreparedBoardItems" where
  "groupItem acc entry =
     (let item = withItemKey (snd entry) (fst entry)
      in case callHasOwnProperty acc (lane item) of
           Inl e \<Rightarrow> Inl e
         | Inr present \<Rightarrow>
             if present then
               (case js_get acc (lane item) of
                  None \<Rightarrow> Inl TypeError
                | Some laneItems \<Rightarrow> Inr (js_set acc (lane item) (laneItems @ [item])))
             else Inr (js_assign acc (lane item) [item]))"

definition sortedGroup ::
  "IPreparedBoardItems \<Rightarrow> IPreparedBoardItems \<Rightarrow> string \<Rightarrow> error + IPreparedBoardItems" where
  "sortedGroup unsortedPreparedBoardItems acc laneKey =
     (case callHasOwnProperty unsortedPreparedBoardItems laneKey of
        Inl e \<Rightarrow> Inl e
      | Inr present \<Rightarrow>
          if present then
            (case js_get unsortedPreparedBoardItems laneKey of
               None \<Rightarrow> Inl TypeError
             | Some laneItems \<Rightarrow> Inr (js_assign acc laneKey (sort_key order laneItems)))
          else Inr (js_assign acc laneKey []))"

definition prepareBoardItems ::
  "IBoardItem js_object \<Rightarrow> TBoardLanes \<Rightarrow> error + IPreparedBoardItems" where
  "prepareBoardItems items lanes =
     (case js_reduce groupItem items [] of
        Inl e \<Rightarrow> Inl e
      | Inr unsortedPreparedBoardItems \<Rightarrow>
          js_reduce (sortedGroup unsortedPreparedBoardItems) (js_keys lanes) [])"

definition resetOrder :: "IPreparedBoardItem \<Rightarrow> int \<Rightarrow> IPreparedBoardItem" where
  "resetOrder item newOrder = item\<lparr>order := newOrder\<rparr>"

section \<open>The board and its handlers\<close>

record board =
  arrangedLanes :: TBoardLanes
  arrangedItems :: IPreparedBoardItems
  addingLane :: bool
  placeholderPosition :: TPlaceholderPosition

record DraggableLocation =
  droppableId :: string
  index :: int

datatype DropReason = DROP | CANCEL

record DropResult =
  draggableId :: string
  reason :: DropReason
  source :: DraggableLocation
  destination :: "DraggableLocation option"

text \<open>
  What a handler passes to \<^verbatim>\<open>provided.announce\<close>: the message template and the values
  interpolated into it (\<^verbatim>\<open>interpolate\<close> and \<^verbatim>\<open>getText\<close> of the translations module
  turn them into text; they are not among the sources and take no part in the state).
  The lane title is \<open>None\<close> when the source reads \<^verbatim>\<open>.title\<close> of the empty string.
\<close>

datatype announcement =
    OnDragEndBoardItem string int nat "string option"
  | OnDragCancelBoardItem string

text \<open>
  \<^verbatim>\<open>cloneDeep\<close> of lodash rebuilds every array and every item of the collection.
\<close>

definition cloneItem :: "IPreparedBoardItem \<Rightarrow> IPreparedBoardItem" where
  "cloneItem item =
     \<lparr>lane = lane item, title = IBoardItem.title item, order = order item,
      itemKey = itemKey item\<rparr>"

definition cloneDeep :: "IPreparedBoardItems \<Rightarrow> IPreparedBoardItems" where
  "cloneDeep obj = map (\<lambda>(k, xs). (k, map cloneItem xs)) obj"

text \<open>
  \<^verbatim>\<open>onDragEnd\<close> of \<^verbatim>\<open>Board.tsx\<close> returns the announcement and the board after the
  handler, or the error it throws. The board after the handler is the state the setters
  were given; an error leaves no state behind in the model. Reading a property of \<^verbatim>\<open>undefined\<close> throws a TypeError: the source
  lane or the destination lane missing from the items, the dragged item missing from the
  source lane, the destination lane missing from the lanes, or no item at the source
  index (the \<^verbatim>\<open>undefined\<close> spliced into the destination then meets \<^verbatim>\<open>resetOrder\<close>).
  The first part of the handler computes the announcement, the second commits the drop.
\<close>

definition dragEndAnnouncement :: "board \<Rightarrow> DropResult \<Rightarrow> error + announcement" where
  "dragEndAnnouncement b ev =
     (case js_get (arrangedItems b) (droppableId (source ev)) of
        None \<Rightarrow> Inl TypeError
      | Some sourceItems \<Rightarrow>
          (case find (\<lambda>boardItem. itemKey boardItem = draggableId ev) sourceItems of
             None \<Rightarrow> Inl TypeError
           | Some boardItem \<Rightarrow>
               (case destination ev of
                  None \<Rightarrow> Inr (OnDragCancelBoardItem (IBoardItem.title boardItem))
                | Some dest \<Rightarrow>
                    (case js_get (arrangedItems b) (droppableId dest) of
                       None \<Rightarrow> Inl TypeError
                     | Some destItems \<Rightarrow>
                         (case (if droppableId dest = [] then Some None
                                else map_option (\<lambda>boardLane. Some (TBoardLane.title boardLane))
                                       (js_get (arrangedLanes b) (droppableId dest))) of
                            None \<Rightarrow> Inl TypeError
                          | Some laneTitle \<Rightarrow>
                              Inr (OnDragEndBoardItem (IBoardItem.title boardItem)
                                     (max 1 (index dest + 1)) (length destItems) laneTitle))))))"

definition dropCommit ::
  "IPreparedBoardItems \<Rightarrow> DraggableLocation \<Rightarrow> DraggableLocation \<Rightarrow> error + IPreparedBoardItems" where
  "dropCommit items src dest =
     (let sourceLaneKey = droppableId src;
          destinationLaneKey = droppableId dest
      in case js_get items sourceLaneKey of
           None \<Rightarrow> Inl TypeError
         | Some sourceItems \<Rightarrow>
             (let (movingItems, remaining) = js_splice (index src) 1 [] sourceItems;
                  items1 = js_set items sourceLaneKey (js_map_index resetOrder remaining)
              in case js_get items1 destinationLaneKey of
                   None \<Rightarrow> Inl TypeError
                 | Some target \<Rightarrow>
                     (case movingItems of
                        [] \<Rightarrow> Inl TypeError
                      | moving # _ \<Rightarrow>
                          (let inserted = snd (js_splice (index dest) 0 [moving] target)
                           in Inr (js_set items1 destinationLaneKey
                                     (js_map_index resetOrder inserted))))))"

definition onDragEnd :: "board \<Rightarrow> DropResult \<Rightarrow> error + (announcement \<times> board)" where
  "onDragEnd b ev =
     (case dragEndAnnouncement b ev of
        Inl e \<Rightarrow> Inl e
      | Inr announced \<Rightarrow>
          (case destination ev of
             None \<Rightarrow> Inr (announced, b)
           | Some dest \<Rightarrow>
               (case dropCommit (arrangedItems b) (source ev) dest of
                  Inl e \<Rightarrow> Inl e
                | Inr items \<Rightarrow>
                    Inr (announced,
                         b\<lparr>arrangedItems := cloneDeep items, placeholderPosition := None\<rparr>))))"

text \<open>
  The same drop on objects that have an identity. The state \<^verbatim>\<open>arrangedItems\<close> is an
  object whose properties are arrays of item objects; here the collection, every array
  and every item is paired with the address at which it lives. The handler changes the
  arrays and the items of the current state where they are (\<^verbatim>\<open>splice\<close> changes the
  array it is called on, \<^verbatim>\<open>resetOrder\<close> the item it is given; the array \<^verbatim>\<open>map\<close> returns
  is dropped) and gives \<^verbatim>\<open>cloneDeep(arrangedItems)\<close> to the setter. \<^verbatim>\<open>cloneDeep\<close>
  allocates a new object for the collection, for every array and for every item, from
  the first address not in use. A state in which no object is stored twice has pairwise
  different addresses; the drop is modelled on such states.
\<close>

type_synonym itemObject = "nat \<times> IPreparedBoardItem"

type_synonym arrayObject = "nat \<times> itemObject list"

type_synonym itemsObject = "nat \<times> arrayObject js_object"

definition resetOrderObject :: "itemObject \<Rightarrow> int \<Rightarrow> itemObject" where
  "resetOrderObject item newOrder = (fst item, resetOrder (snd item) newOrder)"

definition dropCommitObjects ::
  "itemsObject \<Rightarrow> DraggableLocation \<Rightarrow> DraggableLocation \<Rightarrow> error + itemsObject" where
  "dropCommitObjects arranged src dest =
     (let sourceLaneKey = droppableId src;
          destinationLaneKey = droppableId dest
      in case js_get (snd arranged) sourceLaneKey of
           None \<Rightarrow> Inl TypeError
         | Some sourceArray \<Rightarrow>
             (let (movingItems, remaining) = js_splice (index src) 1 [] (snd sourceArray);
                  properties1 =
                    js_set (snd arranged) sourceLaneKey
                      (fst sourceArray, js_map_index resetOrderObject remaining)
              in case js_get properties1 destinationLaneKey of
                   None \<Rightarrow> Inl TypeError
                 | Some targetArray \<Rightarrow>
                     (case movingItems of
                        [] \<Rightarrow> Inl TypeError
                      | moving # _ \<Rightarrow>
                          (let inserted = snd (js_splice (index dest) 0 [moving] (snd targetArray))
                           in Inr (fst arranged,
                                   js_set properties1 destinationLaneKey
                                     (fst targetArray,
                                      js_map_index resetOrderObject inserted))))))"

definition cloneArrayObject :: "nat \<Rightarrow> arrayObject \<Rightarrow> arrayObject \<times> nat" where
  "cloneArrayObject free arr =
     ((free, zip [Suc free ..< Suc free + length (snd arr)] (map (cloneItem \<circ> snd) (snd arr))),
      Suc free + length (snd arr))"

fun cloneProperties :: "nat \<Rightarrow> arrayObject js_object \<Rightarrow> arrayObject js_object \<times> nat" where
  "cloneProperties free [] = ([], free)"
| "cloneProperties free ((k, arr) # rest) =
     (let (arr', free') = cloneArrayObject free arr;
          (rest', free'') = cloneProperties free' rest
      in ((k, arr') # rest', free''))"

definition cloneDeepObject :: "nat \<Rightarrow> itemsObject \<Rightarrow> itemsObject \<times> nat" where
  "cloneDeepObject free obj =
     (let (properties, free') = cloneProperties (Suc free) (snd obj)
      in ((free, properties), free'))"

text \<open>
  The committing part of \<^verbatim>\<open>onDragEnd\<close> on such objects returns the collection of the
  current state as the handler leaves it, and the collection it gives to
  \<^verbatim>\<open>setArrangedItems\<close>.
\<close>

definition commitDrop ::
  "nat \<Rightarrow> itemsObject \<Rightarrow> DraggableLocation \<Rightarrow> DraggableLocation \<Rightarrow>
   error + (itemsObject \<times> itemsObject)" where
  "commitDrop free arranged src dest =
     (case dropCommitObjects arranged src dest of
        Inl e \<Rightarrow> Inl e
      | Inr mutated \<Rightarrow> Inr (mutated, fst (cloneDeepObject free mutated)))"

text \<open>
  \<^verbatim>\<open>moveLane\<close>: the key list after the two splices holds \<^verbatim>\<open>undefined\<close> (\<open>None\<close>)
  when the inner splice removed nothing; used as a property name it reads
  \<^verbatim>\<open>"undefined"\<close>. The rebuilt object stores \<^verbatim>\<open>arrangedLanes[currentLaneKey]\<close>, which
  is \<^verbatim>\<open>undefined\<close> (\<open>None\<close>) for a key the lanes do not have. The argument
  \<^verbatim>\<open>from + delta\<close> is evaluated before the inner splice shortens the array.
\<close>

definition toPropertyKey :: "string option \<Rightarrow> string" where
  "toPropertyKey k = (case k of None \<Rightarrow> ''undefined'' | Some s \<Rightarrow> s)"

definition moveLaneKeys :: "string list \<Rightarrow> string \<Rightarrow> int \<Rightarrow> string option list" where
  "moveLaneKeys laneKeys laneKey delta =
     (let from = js_indexOf laneKeys laneKey;
          (removed, shortened) = js_splice from 1 [] (map Some laneKeys);
          moved = (case removed of [] \<Rightarrow> None | k # _ \<Rightarrow> k)
      in snd (js_splice (from + delta) 0 [moved] shortened))"

definition moveLane :: "TBoardLanes \<Rightarrow> string \<Rightarrow> int \<Rightarrow> TBoardLane option js_object" where
  "moveLane lanes laneKey delta =
     foldl (\<lambda>nextArrangedLanes currentLaneKey.
              js_set nextArrangedLanes (toPropertyKey currentLaneKey)
                (js_get lanes (toPropertyKey currentLaneKey)))
           [] (moveLaneKeys (js_keys lanes) laneKey delta)"

text \<open>
  \<^verbatim>\<open>uniqueId(prefix)\<close> of lodash increments a counter shared by all callers and appends
  its decimal numeral to the prefix. \<^verbatim>\<open>exitPendingLane\<close> is the callback the board gives
  the pending lane; the board's state and the counter are passed through it.
\<close>

fun string_of_nat :: "nat \<Rightarrow> string" where
  "string_of_nat n =
     (if n < 10 then [''0123456789'' ! n]
      else string_of_nat (n div 10) @ [''0123456789'' ! (n mod 10)])"

declare string_of_nat.simps [simp del]

definition uniqueId :: "string \<Rightarrow> nat \<Rightarrow> string \<times> nat" where
  "uniqueId prefix idCounter = (prefix @ string_of_nat (Suc idCounter), Suc idCounter)"

definition exitPendingLane :: "nat \<Rightarrow> board \<Rightarrow> string \<Rightarrow> nat \<times> board" where
  "exitPendingLane idCounter b v =
     (if length v > 0 then
        (let (newLaneKey, idCounter') = uniqueId ''sl'' idCounter
         in (idCounter',
             b\<lparr>arrangedLanes := js_set (arrangedLanes b) newLaneKey \<lparr>TBoardLane.title = v\<rparr>,
               arrangedItems := js_set (arrangedItems b) newLaneKey [],
               addingLane := False\<rparr>))
      else (idCounter, b\<lparr>addingLane := False\<rparr>))"

text \<open>
  The text input of the pending lane (component \<^verbatim>\<open>BoardLane\<close>): blur and the Enter key
  submit the input's value to \<^verbatim>\<open>exitPendingLane\<close>, the Escape key submits the empty
  string, any other key submits nothing.
\<close>

datatype inputEvent = Blur string | KeyDown string string

definition pendingLaneSubmits :: "inputEvent \<Rightarrow> string option" where
  "pendingLaneSubmits e =
     (case e of
        Blur v \<Rightarrow> Some v
      | KeyDown key v \<Rightarrow>
          if key = ''Escape'' then Some []
          else if key = ''Enter'' then Some v
          else None)"

definition pendingLaneInput :: "nat \<Rightarrow> board \<Rightarrow> inputEvent \<Rightarrow> nat \<times> board" where
  "pendingLaneInput idCounter b e =
     (case pendingLaneSubmits e of
        None \<Rightarrow> (idCounter, b)
      | Some v \<Rightarrow> exitPendingLane idCounter b v)"

section \<open>Notions used to state the properties\<close>

text \<open>The item keys of a board, lane by lane.\<close>

definition allItemKeys :: "IPreparedBoardItems \<Rightarrow> string list" where
  "allItemKeys items = map itemKey (concat (map snd items))"

text \<open>
  A board with three lanes; dropping item 1 of lane A at the head of lane B, and the
  same drag cancelled.
\<close>

definition exampleBoard :: board where
  "exampleBoard =
     \<lparr>arrangedLanes =
        [(''A'', \<lparr>TBoardLane.title = ''To do''\<rparr>), (''B'', \<lparr>TBoardLane.title = ''Doing''\<rparr>),
         (''C'', \<lparr>TBoardLane.title = ''Done''\<rparr>)],
      arrangedItems =
        [(''A'', [\<lparr>lane = ''A'', title = ''one'', order = 0, itemKey = ''1''\<rparr>,
                  \<lparr>lane = ''A'', title = ''two'', order = 1, itemKey = ''2''\<rparr>]),
         (''B'', []),
         (''C'', [\<lparr>lane = ''C'', title = ''three'', order = 0, itemKey = ''3''\<rparr>])],
      addingLane = False,
      placeholderPosition = Some (20, 2, 200, 48)\<rparr>"

definition exampleDrop :: DropResult where
  "exampleDrop =
     \<lparr>draggableId = ''1'', reason = DROP,
      source = \<lparr>droppableId = ''A'', index = 0\<rparr>,
      destination = Some \<lparr>droppableId = ''B'', index = 0\<rparr>\<rparr>"

definition exampleCancel :: DropResult where
  "exampleCancel =
     \<lparr>draggableId = ''1'', reason = CANCEL,
      source = \<lparr>droppableId = ''A'', index = 0\<rparr>,
      destination = None\<rparr>"

definition exampleDropped :: board where
  "exampleDropped =
     \<lparr>arrangedLanes =
        [(''A'', \<lparr>TBoardLane.title = ''To do''\<rparr>), (''B'', \<lparr>TBoardLane.title = ''Doing''\<rparr>),
         (''C'', \<lparr>TBoardLane.title = ''Done''\<rparr>)],
      arrangedItems =
        [(''A'', [\<lparr>lane = ''A'', title = ''two'', order = 0, itemKey = ''2''\<rparr>]),
         (''B'', [\<lparr>lane = ''A'', title = ''one'', order = 0, itemKey = ''1''\<rparr>]),
         (''C'', [\<lparr>lane = ''C'', title = ''three'', order = 0, itemKey = ''3''\<rparr>])],
      addingLane = False,
      placeholderPosition = None\<rparr>"






text \<open>The items of the example board as objects at the addresses 10 to 16.\<close>

definition exampleObjects :: itemsObject where
  "exampleObjects =
     (10,
      [(''A'', (11, [(12, \<lparr>lane = ''A'', title = ''one'', order = 0, itemKey = ''1''\<rparr>),
                     (13, \<lparr>lane = ''A'', title = ''two'', order = 1, itemKey = ''2''\<rparr>)])),
       (''B'', (14, [])),
       (''C'', (15, [(16, \<lparr>lane = ''C'', title = ''three'', order = 0, itemKey = ''3''\<rparr>)]))])"

text \<open>The items of one lane, each with its key, in the order of the item mapping.\<close>

definition itemsOfLane :: "IBoardItem js_object \<Rightarrow> string \<Rightarrow> IPreparedBoardItem list" where
  "itemsOfLane items k =
     map (\<lambda>entry. withItemKey (snd entry) (fst entry))
       (filter (\<lambda>entry. lane (snd entry) = k) items)"

text \<open>An item mapping with an item of a lane that does not exist, and two lanes.\<close>

definition exampleItems :: "IBoardItem js_object" where
  "exampleItems =
     [(''i1'', \<lparr>lane = ''A'', title = ''one'', order = 1\<rparr>),
      (''i2'', \<lparr>lane = ''A'', title = ''two'', order = 0\<rparr>),
      (''i3'', \<lparr>lane = ''Z'', title = ''three'', order = 0\<rparr>)]"

definition exampleLanes :: TBoardLanes where
  "exampleLanes =
     [(''A'', \<lparr>TBoardLane.title = ''To do''\<rparr>), (''B'', \<lparr>TBoardLane.title = ''Doing''\<rparr>)]"

text \<open>
  Item mappings with an item whose lane is named \<^verbatim>\<open>hasOwnProperty\<close>: followed by another
  item, and alone.
\<close>

definition exampleShadowingItems :: "IBoardItem js_object" where
  "exampleShadowingItems =
     [(''i1'', \<lparr>lane = ''hasOwnProperty'', title = ''one'', order = 0\<rparr>),
      (''i2'', \<lparr>lane = ''A'', title = ''two'', order = 0\<rparr>)]"

definition exampleShadowingItem :: "IBoardItem js_object" where
  "exampleShadowingItem =
     [(''i1'', \<lparr>lane = ''hasOwnProperty'', title = ''one'', order = 0\<rparr>)]"

text \<open>
  Items ranked from 1, the board a component starts with when it is given them (the
  state is initialised with \<^verbatim>\<open>prepareBoardItems(props.items, props.lanes)\<close>), and the
  drags of its two items as the drag library reports them: the source index is the
  \<^verbatim>\<open>index\<close> the lane gave the dragged item, its \<^verbatim>\<open>order\<close>.
\<close>

definition exampleOneBasedItems :: "IBoardItem js_object" where
  "exampleOneBasedItems =
     [(''i1'', \<lparr>lane = ''A'', title = ''one'', order = 1\<rparr>),
      (''i2'', \<lparr>lane = ''A'', title = ''two'', order = 2\<rparr>)]"

definition exampleOneBased :: board where
  "exampleOneBased =
     \<lparr>arrangedLanes = exampleLanes,
      arrangedItems =
        [(''A'', [\<lparr>lane = ''A'', title = ''one'', order = 1, itemKey = ''i1''\<rparr>,
                  \<lparr>lane = ''A'', title = ''two'', order = 2, itemKey = ''i2''\<rparr>]),
         (''B'', [])],
      addingLane = False,
      placeholderPosition = None\<rparr>"

definition exampleDragSecond :: DropResult where
  "exampleDragSecond =
     \<lparr>draggableId = ''i2'', reason = DROP,
      source = \<lparr>droppableId = ''A'', index = 2\<rparr>,
      destination = Some \<lparr>droppableId = ''B'', index = 0\<rparr>\<rparr>"

definition exampleDragFirst :: DropResult where
  "exampleDragFirst =
     \<lparr>draggableId = ''i1'', reason = DROP,
      source = \<lparr>droppableId = ''A'', index = 1\<rparr>,
      destination = Some \<lparr>droppableId = ''B'', index = 0\<rparr>\<rparr>"

text \<open>Lanes whose keys are array indices.\<close>

definition exampleNumberedLanes :: TBoardLanes where
  "exampleNumberedLanes =
     [(''1'', \<lparr>TBoardLane.title = ''To do''\<rparr>), (''2'', \<lparr>TBoardLane.title = ''Doing''\<rparr>)]"

text \<open>The example board after the lane "Review" was added with the generated key \<^verbatim>\<open>sl4\<close>.\<close>

definition exampleAdded :: board where
  "exampleAdded =
     \<lparr>arrangedLanes =
        [(''A'', \<lparr>TBoardLane.title = ''To do''\<rparr>), (''B'', \<lparr>TBoardLane.title = ''Doing''\<rparr>),
         (''C'', \<lparr>TBoardLane.title = ''Done''\<rparr>), (''sl4'', \<lparr>TBoardLane.title = ''Review''\<rparr>)],
      arrangedItems =
        [(''A'', [\<lparr>lane = ''A'', title = ''one'', order = 0, itemKey = ''1''\<rparr>,
                  \<lparr>lane = ''A'', title = ''two'', order = 1, itemKey = ''2''\<rparr>]),
         (''B'', []),
         (''C'', [\<lparr>lane = ''C'', title = ''three'', order = 0, itemKey = ''3''\<rparr>]),
         (''sl4'', [])],
      addingLane = False,
      placeholderPosition = Some (20, 2, 200, 48)\<rparr>"

text \<open>
  A board whose embedder named a lane \<^verbatim>\<open>sl4\<close>, the key \<^verbatim>\<open>uniqueId\<close> generates fourth;
  the lane holds an item.
\<close>

definition exampleSupplied :: board where
  "exampleSupplied =
     \<lparr>arrangedLanes =
        [(''A'', \<lparr>TBoardLane.title = ''To do''\<rparr>), (''sl4'', \<lparr>TBoardLane.title = ''Backlog''\<rparr>)],
      arrangedItems =
        [(''A'', []),
         (''sl4'', [\<lparr>lane = ''sl4'', title = ''nine'', order = 0, itemKey = ''9''\<rparr>])],
      addingLane = True,
      placeholderPosition = None\<rparr>"

section \<open>Properties of the JavaScript operations\<close>

lemma cloneItem_ident: "cloneItem item = item"
  by (simp add: cloneItem_def)

lemma cloneDeep_ident: "cloneDeep obj = obj"
  by (induction obj) (auto simp: cloneDeep_def cloneItem_ident map_idI)

lemma map_of_insert_index:
  "k \<notin> fst ` set obj \<Longrightarrow> map_of (insert_index k v obj) = (map_of obj)(k \<mapsto> v)"
  by (induction k v obj rule: insert_index.induct) (auto simp: fun_eq_iff)

lemma keys_insert_index: "fst ` set (insert_index k v obj) = insert k (fst ` set obj)"
  by (induction k v obj rule: insert_index.induct) auto

lemma js_slice0_take: "0 \<le> e \<Longrightarrow> js_slice0 e xs = take (nat e) xs"
  by (auto simp: js_slice0_def Let_def min_def)

lemma distinct_insert_index:
  "k \<notin> fst ` set obj \<Longrightarrow> distinct (map fst obj) \<Longrightarrow> distinct (map fst (insert_index k v obj))"
  by (induction k v obj rule: insert_index.induct) (auto simp: keys_insert_index)

lemma js_get_js_set: "js_get (js_set obj k v) k' = (if k' = k then Some v else js_get obj k')"
proof (cases "hasOwnProperty obj k")
  case True
  then show ?thesis
    by (simp add: js_get_def js_set_def update_conv')
next
  case absent: False
  then have k: "k \<notin> fst ` set obj"
    by (simp add: hasOwnProperty_def js_keys_def)
  show ?thesis
  proof (cases "is_array_index k")
    case True
    with absent k show ?thesis
      by (simp add: js_get_def js_set_def map_of_insert_index)
  next
    case False
    from k have "map_of obj k = None"
      by (simp add: map_of_eq_None_iff)
    with absent False show ?thesis
      by (auto simp: js_get_def js_set_def map_add_def split: option.splits)
  qed
qed

lemma js_keys_js_set_present:
  "hasOwnProperty obj k \<Longrightarrow> js_keys (js_set obj k v) = js_keys obj"
  by (simp add: js_set_def js_keys_def hasOwnProperty_def update_keys)

lemma set_js_keys_js_set: "set (js_keys (js_set obj k v)) = insert k (set (js_keys obj))"
  by (auto simp: js_set_def js_keys_def hasOwnProperty_def dom_update keys_insert_index)

lemma distinct_js_keys_js_set:
  "distinct (js_keys obj) \<Longrightarrow> distinct (js_keys (js_set obj k v))"
  by (auto simp: js_set_def js_keys_def hasOwnProperty_def distinct_update distinct_insert_index)

lemma hasOwnProperty_iff: "hasOwnProperty obj k \<longleftrightarrow> js_get obj k \<noteq> None"
  by (simp add: hasOwnProperty_def js_keys_def js_get_def map_of_eq_None_iff)

section \<open>Placeholder position\<close>

lemma foldl_clientY:
  "foldl (\<lambda>acc child. acc + clientHeight child + 8) a ys =
     a + sum_list (map clientHeight ys) + 8 * int (length ys)"
  by (induction ys arbitrary: a) (simp_all add: algebra_simps)

text \<open>
  C5. For every dragged element and every list of preceding siblings, the placeholder is
  the tuple \<open>(x, y, width, height)\<close> whose width and height are the client width and
  height of the dragged element and whose \<open>y\<close> is the sum of the siblings' client heights
  plus 8 for each sibling plus 2; it is null when the dragged element has no parent (or
  there is no dragged element).
\<close>

theorem getPlaceholderPosition_rectangle:
  "getPlaceholderPosition (Some d) ys =
     (if parentNode d = None then None
      else Some (20, sum_list (map clientHeight ys) + 8 * int (length ys) + 2,
                 clientWidth d, clientHeight d)) \<and>
   getPlaceholderPosition None ys = None"
  by (simp add: getPlaceholderPosition_def foldl_clientY)

text \<open>
  The siblings handed to it: the first \<^verbatim>\<open>endIndex\<close> children of the container that carry a
  draggable id other than the id of the dragged element.
\<close>

lemma getClientYChildren_take:
  "0 \<le> endIndex \<Longrightarrow>
   getClientYChildren parent dragged endIndex =
     take (nat endIndex)
       (filter (\<lambda>child. data_rbd_draggable_id child \<noteq> None \<and>
                         data_rbd_draggable_id child \<noteq> Some dragged)
               (children parent))"
proof -
  have "(\<lambda>child. case data_rbd_draggable_id child of
                    None \<Rightarrow> False
                  | Some childDraggableId \<Rightarrow> childDraggableId \<noteq> dragged) =
        (\<lambda>child. data_rbd_draggable_id child \<noteq> None \<and>
                  data_rbd_draggable_id child \<noteq> Some dragged)"
    by (auto simp: fun_eq_iff split: option.splits)
  moreover assume "0 \<le> endIndex"
  ultimately show ?thesis
    by (simp add: getClientYChildren_def js_slice0_take)
qed

section \<open>Re-ranking\<close>

lemma js_map_index_length [simp]: "length (js_map_index f xs) = length xs"
  by (simp add: js_map_index_def)

lemma js_map_index_nth:
  "i < length xs \<Longrightarrow> js_map_index f xs ! i = f (xs ! i) (int i)"
  by (simp add: js_map_index_def nth_enumerate_eq)

lemma order_reranked:
  "map order (js_map_index resetOrder xs) = map int [0..<length xs]"
  by (rule nth_equalityI) (simp_all add: js_map_index_nth resetOrder_def)

lemma itemKey_reranked:
  "map itemKey (js_map_index resetOrder xs) = map itemKey xs"
  by (rule nth_equalityI) (simp_all add: js_map_index_nth resetOrder_def)

section \<open>Drop commit\<close>



lemma js_splice_insert_any:
  "\<exists>p \<le> length xs. js_splice i 0 [x] xs = ([], take p xs @ x # drop p xs)"
proof -
  define s where "s = (if i < 0 then max (int (length xs) + i) 0 else min i (int (length xs)))"
  have "nat s \<le> length xs" "0 \<le> s"
    by (auto simp: s_def)
  moreover have "js_splice i 0 [x] xs = ([], take (nat s) xs @ x # drop (nat s) xs)"
    by (auto simp: js_splice_def Let_def s_def min_def max_def)
  ultimately show ?thesis
    by blast
qed

lemma dropCommit_InrE:
  assumes "dropCommit items src dest = Inr items'"
  obtains sourceItems moving rest remaining target where
    "js_get items (droppableId src) = Some sourceItems"
    "js_splice (index src) 1 [] sourceItems = (moving # rest, remaining)"
    "js_get (js_set items (droppableId src) (js_map_index resetOrder remaining))
       (droppableId dest) = Some target"
    "items' =
       js_set (js_set items (droppableId src) (js_map_index resetOrder remaining))
         (droppableId dest)
         (js_map_index resetOrder (snd (js_splice (index dest) 0 [moving] target)))"
  using assms
  by (auto simp: dropCommit_def Let_def split: option.splits list.splits prod.splits)

lemma onDragEnd_InrE:
  assumes "onDragEnd b ev = Inr (announced, b')" and "destination ev = Some dest"
  obtains items' where
    "dropCommit (arrangedItems b) (source ev) dest = Inr items'"
    "b' = b\<lparr>arrangedItems := items', placeholderPosition := None\<rparr>"
  using assms
  by (auto simp: onDragEnd_def cloneDeep_ident split: sum.splits option.splits)


text \<open>
  C3. A drop with no destination: whenever the handler returns, the board it returns is
  the board it was given (every lane's sequence included) and what it announces is the
  cancel message; and it does return, with the title of the dragged item, when the source
  lane holds the dragged item.
\<close>

theorem onDragEnd_cancelled:
  assumes "destination ev = None"
  shows "(\<forall>announced b'. onDragEnd b ev = Inr (announced, b') \<longrightarrow>
            b' = b \<and> (\<exists>itemTitle. announced = OnDragCancelBoardItem itemTitle)) \<and>
         (\<forall>sourceItems boardItem.
            js_get (arrangedItems b) (droppableId (source ev)) = Some sourceItems \<and>
            find (\<lambda>boardItem. itemKey boardItem = draggableId ev) sourceItems = Some boardItem \<longrightarrow>
            onDragEnd b ev = Inr (OnDragCancelBoardItem (IBoardItem.title boardItem), b))"
  using assms
  by (auto simp: onDragEnd_def dragEndAnnouncement_def split: sum.splits option.splits)

text \<open>
  C9. A committed drop keeps the lanes and the keys of the items, and leaves the sequence
  of every lane other than the source lane and the destination lane as it was.
\<close>

theorem onDragEnd_frame:
  assumes "onDragEnd b ev = Inr (announced, b')" and "destination ev = Some dest"
  shows "js_keys (arrangedItems b') = js_keys (arrangedItems b) \<and>
         arrangedLanes b' = arrangedLanes b \<and>
         (\<forall>k. k \<noteq> droppableId (source ev) \<and> k \<noteq> droppableId dest \<longrightarrow>
              js_get (arrangedItems b') k = js_get (arrangedItems b) k)"
proof -
  from assms obtain items' where
    commit: "dropCommit (arrangedItems b) (source ev) dest = Inr items'" and
    b': "b' = b\<lparr>arrangedItems := items', placeholderPosition := None\<rparr>"
    by (rule onDragEnd_InrE)
  from commit obtain sourceItems remaining target inserted where
    src: "js_get (arrangedItems b) (droppableId (source ev)) = Some sourceItems" and
    tgt: "js_get (js_set (arrangedItems b) (droppableId (source ev)) remaining)
            (droppableId dest) = Some target" and
    items': "items' = js_set (js_set (arrangedItems b) (droppableId (source ev)) remaining)
                        (droppableId dest) inserted"
    by (rule dropCommit_InrE)
  from src tgt have "js_keys items' = js_keys (arrangedItems b)"
    by (simp add: items' js_keys_js_set_present hasOwnProperty_iff)
  moreover have "js_get items' k = js_get (arrangedItems b) k"
    if "k \<noteq> droppableId (source ev)" "k \<noteq> droppableId dest" for k
    using that by (simp add: items' js_get_js_set)
  ultimately show ?thesis
    by (simp add: b')
qed

text \<open>
  C2. After a committed drop, in the source lane and in the destination lane (the same
  lane for a move within a lane) the \<^verbatim>\<open>order\<close> of every item is its index in the
  resulting sequence.
\<close>

theorem onDragEnd_ranks:
  assumes "onDragEnd b ev = Inr (announced, b')" and "destination ev = Some dest"
    and "k = droppableId (source ev) \<or> k = droppableId dest"
  shows "\<exists>xs. js_get (arrangedItems b') k = Some xs \<and>
              (\<forall>i < length xs. order (xs ! i) = int i)"
proof -
  from assms(1,2) obtain items' where
    commit: "dropCommit (arrangedItems b) (source ev) dest = Inr items'" and
    b': "b' = b\<lparr>arrangedItems := items', placeholderPosition := None\<rparr>"
    by (rule onDragEnd_InrE)
  from commit obtain remaining inserted where
    items': "items' =
       js_set (js_set (arrangedItems b) (droppableId (source ev))
                 (js_map_index resetOrder remaining))
         (droppableId dest) (js_map_index resetOrder inserted)"
    by (rule dropCommit_InrE)
  have ranked: "\<forall>i < length (js_map_index resetOrder ys). order (js_map_index resetOrder ys ! i) = int i"
    for ys
    by (simp add: js_map_index_nth resetOrder_def)
  from assms(3) have
    "js_get items' k = Some (js_map_index resetOrder inserted) \<or>
     js_get items' k = Some (js_map_index resetOrder remaining)"
    by (auto simp: items' js_get_js_set)
  with ranked show ?thesis
    by (auto simp: b')
qed

lemma example_drop_run:
  "onDragEnd exampleBoard exampleDrop =
     Inr (OnDragEndBoardItem ''one'' 1 0 (Some ''Doing''), exampleDropped)"
  by (simp add: onDragEnd_def dragEndAnnouncement_def dropCommit_def exampleBoard_def
      exampleDrop_def exampleDropped_def js_get_def js_set_def hasOwnProperty_def js_keys_def
      js_splice_def js_map_index_def resetOrder_def cloneDeep_def cloneItem_def Let_def)

theorem onDragEnd_frame_witness:
  "onDragEnd exampleBoard exampleDrop =
     Inr (OnDragEndBoardItem ''one'' 1 0 (Some ''Doing''), exampleDropped) \<and>
   js_keys (arrangedItems exampleDropped) = js_keys (arrangedItems exampleBoard) \<and>
   js_get (arrangedItems exampleDropped) ''C'' = js_get (arrangedItems exampleBoard) ''C''"
proof -
  have dest: "destination exampleDrop = Some \<lparr>droppableId = ''B'', index = 0\<rparr>"
    by (simp add: exampleDrop_def)
  have "''C'' \<noteq> droppableId (source exampleDrop) \<and>
        ''C'' \<noteq> droppableId \<lparr>droppableId = ''B'', index = 0\<rparr>"
    by (simp add: exampleDrop_def)
  with onDragEnd_frame [OF example_drop_run dest] example_drop_run show ?thesis
    by blast
qed

theorem onDragEnd_ranks_witness:
  "\<exists>xs. js_get (arrangedItems exampleDropped) ''B'' = Some xs \<and>
        length xs = 1 \<and> order (xs ! 0) = 0"
proof -
  have dest: "destination exampleDrop = Some \<lparr>droppableId = ''B'', index = 0\<rparr>"
    by (simp add: exampleDrop_def)
  have "''B'' = droppableId (source exampleDrop) \<or>
        ''B'' = droppableId \<lparr>droppableId = ''B'', index = 0\<rparr>"
    by simp
  from onDragEnd_ranks [OF example_drop_run dest this] obtain xs where
    xs: "js_get (arrangedItems exampleDropped) ''B'' = Some xs"
        "\<forall>i < length xs. order (xs ! i) = int i"
    by blast
  moreover from xs(1) have "length xs = 1"
    by (auto simp: exampleDropped_def js_get_def)
  ultimately show ?thesis
    by auto
qed

theorem onDragEnd_cancelled_witness:
  "destination exampleCancel = None \<and>
   onDragEnd exampleBoard exampleCancel = Inr (OnDragCancelBoardItem ''one'', exampleBoard)"
proof -
  have none: "destination exampleCancel = None"
    by (simp add: exampleCancel_def)
  have "js_get (arrangedItems exampleBoard) (droppableId (source exampleCancel)) =
          Some [\<lparr>lane = ''A'', title = ''one'', order = 0, itemKey = ''1''\<rparr>,
                \<lparr>lane = ''A'', title = ''two'', order = 1, itemKey = ''2''\<rparr>] \<and>
        find (\<lambda>boardItem. itemKey boardItem = draggableId exampleCancel)
          [\<lparr>lane = ''A'', title = ''one'', order = 0, itemKey = ''1''\<rparr>,
           \<lparr>lane = ''A'', title = ''two'', order = 1, itemKey = ''2''\<rparr>] =
          Some \<lparr>lane = ''A'', title = ''one'', order = 0, itemKey = ''1''\<rparr>"
    by (simp add: exampleBoard_def exampleCancel_def js_get_def)
  with onDragEnd_cancelled [OF none, of exampleBoard] none show ?thesis
    by fastforce
qed

lemma mset_concat_update:
  "distinct (map fst al) \<Longrightarrow> map_of al k = Some old \<Longrightarrow>
   mset (concat (map snd (AList.update k v al))) + mset old =
     mset (concat (map snd al)) + mset v"
  by (induction al) (auto simp: map_of_eq_None_iff[symmetric] split: if_splits)

lemma mset_allItemKeys_js_set:
  assumes "distinct (js_keys items)" and "js_get items k = Some old"
  shows "mset (allItemKeys (js_set items k v)) + mset (map itemKey old) =
           mset (allItemKeys items) + mset (map itemKey v)"
proof -
  from assms(2) have "hasOwnProperty items k"
    by (simp add: hasOwnProperty_iff)
  then have "js_set items k v = AList.update k v items"
    by (simp add: js_set_def)
  moreover from assms have
    "mset (concat (map snd (AList.update k v items))) + mset old =
       mset (concat (map snd items)) + mset v"
    by (intro mset_concat_update) (simp_all add: js_keys_def js_get_def)
  then have
    "image_mset itemKey (mset (concat (map snd (AList.update k v items))) + mset old) =
       image_mset itemKey (mset (concat (map snd items)) + mset v)"
    by simp
  ultimately show ?thesis
    by (simp add: allItemKeys_def)
qed



lemma mset_map_insert_at:
  "mset (map f (take p xs @ x # drop p xs)) = mset (map f xs) + {#f x#}"
proof -
  have "mset (take p xs @ drop p xs) = mset xs"
    by simp
  then have "mset (take p xs) + mset (drop p xs) = mset xs"
    by (simp only: mset_append)
  then have "image_mset f (mset (take p xs)) + image_mset f (mset (drop p xs)) =
               image_mset f (mset xs)"
    by (metis image_mset_union)
  then show ?thesis
    by simp
qed

lemma mset_swap_out:
  fixes A S I R :: "'a multiset"
  assumes "A + S = I + R" and "R + {#m#} = S"
  shows "A + {#m#} = I"
proof -
  from assms have "A + (R + {#m#}) = I + R"
    by simp
  then have "(A + {#m#}) + R = I + R"
    by (simp add: ac_simps)
  then show ?thesis
    by (simp only: add_right_cancel)
qed

lemma mset_swap_in:
  fixes A S I R :: "'a multiset"
  assumes "A + T = I + S" and "S = T + {#m#}"
  shows "A = I + {#m#}"
proof -
  from assms have "A + T = (I + {#m#}) + T"
    by (simp add: ac_simps)
  then show ?thesis
    by (simp only: add_right_cancel)
qed

lemma js_splice_parts:
  "\<exists>s dc. js_splice start deleteCount items xs =
            (take dc (drop s xs), take s xs @ items @ drop (s + dc) xs) \<and>
          (deleteCount \<le> 1 \<longrightarrow> dc \<le> 1)"
proof -
  define si :: int where
    "si = (if start < 0 then max (int (length xs) + start) 0 else min start (int (length xs)))"
  define di :: int where "di = min (max deleteCount 0) (int (length xs) - si)"
  have "0 \<le> si" "0 \<le> di"
    by (auto simp: si_def di_def)
  then have "nat (si + di) = nat si + nat di"
    by (simp add: nat_add_distrib)
  moreover have "js_splice start deleteCount items xs =
      (take (nat di) (drop (nat si) xs), take (nat si) xs @ items @ drop (nat (si + di)) xs)"
    by (simp only: js_splice_def Let_def si_def di_def)
  moreover have "nat di \<le> 1" if "deleteCount \<le> 1"
    using that by (simp add: di_def)
  ultimately show ?thesis
    by metis
qed

lemma js_splice_mset:
  assumes "js_splice start deleteCount [] xs = (removed, remaining)"
  shows "mset removed + mset remaining = mset xs"
proof -
  from js_splice_parts [of start deleteCount "[]" xs] assms obtain s dc where
    parts: "removed = take dc (drop s xs)" "remaining = take s xs @ drop (s + dc) xs"
    by auto
  have "mset xs = mset (take s xs) + mset (drop s xs)"
    by (metis append_take_drop_id mset_append)
  also have "mset (drop s xs) = mset (take dc (drop s xs)) + mset (drop dc (drop s xs))"
    by (metis append_take_drop_id mset_append)
  finally show ?thesis
    by (simp add: parts add.commute)
qed

section \<open>Objects and their contents\<close>


lemma map_snd_resetOrderObject [simp]:
  "map snd (js_map_index resetOrderObject xs) = js_map_index resetOrder (map snd xs)"
  by (rule nth_equalityI) (simp_all add: js_map_index_nth resetOrderObject_def)
























lemma example_commitDrop:
  "commitDrop 17 exampleObjects \<lparr>droppableId = ''A'', index = 0\<rparr> \<lparr>droppableId = ''B'', index = 0\<rparr> =
     Inr ((10,
           [(''A'', (11, [(13, \<lparr>lane = ''A'', title = ''two'', order = 0, itemKey = ''2''\<rparr>)])),
            (''B'', (14, [(12, \<lparr>lane = ''A'', title = ''one'', order = 0, itemKey = ''1''\<rparr>)])),
            (''C'', (15, [(16, \<lparr>lane = ''C'', title = ''three'', order = 0, itemKey = ''3''\<rparr>)]))]),
          (17,
           [(''A'', (18, [(19, \<lparr>lane = ''A'', title = ''two'', order = 0, itemKey = ''2''\<rparr>)])),
            (''B'', (20, [(21, \<lparr>lane = ''A'', title = ''one'', order = 0, itemKey = ''1''\<rparr>)])),
            (''C'', (22, [(23, \<lparr>lane = ''C'', title = ''three'', order = 0, itemKey = ''3''\<rparr>)]))]))"
proof -
  have commit: "dropCommitObjects exampleObjects \<lparr>droppableId = ''A'', index = 0\<rparr>
                  \<lparr>droppableId = ''B'', index = 0\<rparr> =
     Inr (10,
           [(''A'', (11, [(13, \<lparr>lane = ''A'', title = ''two'', order = 0, itemKey = ''2''\<rparr>)])),
            (''B'', (14, [(12, \<lparr>lane = ''A'', title = ''one'', order = 0, itemKey = ''1''\<rparr>)])),
            (''C'', (15, [(16, \<lparr>lane = ''C'', title = ''three'', order = 0, itemKey = ''3''\<rparr>)]))])"
    by (simp add: dropCommitObjects_def exampleObjects_def resetOrderObject_def resetOrder_def
        js_get_def js_set_def hasOwnProperty_def js_keys_def js_splice_def js_map_index_def Let_def)
  have array: "cloneArrayObject free (a, []) = ((free, []), Suc free)"
              "cloneArrayObject free (a, [(b, item)]) = ((free, [(Suc free, item)]), Suc (Suc free))"
    for free a b item
    by (simp_all add: cloneArrayObject_def cloneItem_ident)
  show ?thesis
    by (simp add: commitDrop_def commit cloneDeepObject_def array)
qed

section \<open>Moving an item\<close>




text \<open>
  Such indices reach the handler. On the board a component starts with when its items are
  ranked from 1, dragging the second item of lane A to lane B throws, and dragging the
  first item moves the second one (the announcement names the first).
\<close>

lemma onDragEnd_ranked_from_one:
  "prepareBoardItems exampleOneBasedItems exampleLanes = Inr (arrangedItems exampleOneBased) \<and>
   onDragEnd exampleOneBased exampleDragSecond = Inl TypeError \<and>
   onDragEnd exampleOneBased exampleDragFirst =
     Inr (OnDragEndBoardItem ''one'' 1 0 (Some ''Doing''),
          exampleOneBased
            \<lparr>arrangedItems :=
               [(''A'', [\<lparr>lane = ''A'', title = ''one'', order = 0, itemKey = ''i1''\<rparr>]),
                (''B'', [\<lparr>lane = ''A'', title = ''two'', order = 0, itemKey = ''i2''\<rparr>])]\<rparr>)"
proof -
  have "prepareBoardItems exampleOneBasedItems exampleLanes = Inr (arrangedItems exampleOneBased)"
    by (simp add: prepareBoardItems_def exampleOneBasedItems_def exampleOneBased_def
        exampleLanes_def groupItem_def sortedGroup_def callHasOwnProperty_def js_assign_def
        withItemKey_def js_get_def js_set_def js_keys_def hasOwnProperty_def is_array_index_def
        is_digit_def Let_def)
  moreover have "onDragEnd exampleOneBased exampleDragSecond = Inl TypeError"
    by (simp add: onDragEnd_def dragEndAnnouncement_def dropCommit_def exampleOneBased_def
        exampleLanes_def exampleDragSecond_def js_get_def js_set_def hasOwnProperty_def
        js_keys_def js_splice_def js_map_index_def resetOrder_def Let_def)
  moreover have "onDragEnd exampleOneBased exampleDragFirst =
     Inr (OnDragEndBoardItem ''one'' 1 0 (Some ''Doing''),
          exampleOneBased
            \<lparr>arrangedItems :=
               [(''A'', [\<lparr>lane = ''A'', title = ''one'', order = 0, itemKey = ''i1''\<rparr>]),
                (''B'', [\<lparr>lane = ''A'', title = ''two'', order = 0, itemKey = ''i2''\<rparr>])]\<rparr>)"
    by (simp add: onDragEnd_def dragEndAnnouncement_def dropCommit_def exampleOneBased_def
        exampleLanes_def exampleDragFirst_def js_get_def js_set_def hasOwnProperty_def
        js_keys_def js_splice_def js_map_index_def resetOrder_def cloneDeep_def cloneItem_def
        Let_def)
  ultimately show ?thesis
    by (simp only: simp_thms)
qed

text \<open>
  A source index at or beyond the end of the source sequence removes nothing, and the
  handler throws.
\<close>

lemma onDragEnd_no_item_at_source_index:
  assumes "js_get (arrangedItems b) (droppableId (source ev)) = Some sourceItems"
    and "int (length sourceItems) \<le> index (source ev)"
    and "destination ev = Some dest"
  shows "onDragEnd b ev = Inl TypeError"
proof -
  from assms(2) have "js_splice (index (source ev)) 1 [] sourceItems = ([], sourceItems)"
    by (simp add: js_splice_def Let_def min_def)
  with assms(1) have "dropCommit (arrangedItems b) (source ev) dest = Inl TypeError"
    by (simp add: dropCommit_def Let_def split: option.splits)
  with assms(3) show ?thesis
  proof (cases "dragEndAnnouncement b ev")
    case (Inl e)
    then show ?thesis
      by (cases e) (simp add: onDragEnd_def)
  next
    case (Inr announced)
    with assms(3) \<open>dropCommit (arrangedItems b) (source ev) dest = Inl TypeError\<close>
    show ?thesis
      by (simp add: onDragEnd_def)
  qed
qed

text \<open>
  A committed drop keeps the item keys of the board: none is lost, none is duplicated.
\<close>

lemma dropCommit_item_keys:
  assumes "distinct (js_keys items)" and "dropCommit items src dest = Inr items'"
  shows "mset (allItemKeys items') = mset (allItemKeys items)"
proof -
  from assms(2) obtain sourceItems moving rest remaining target where
    src: "js_get items (droppableId src) = Some sourceItems" and
    removed: "js_splice (index src) 1 [] sourceItems = (moving # rest, remaining)" and
    tgt: "js_get (js_set items (droppableId src) (js_map_index resetOrder remaining))
            (droppableId dest) = Some target" and
    items': "items' =
       js_set (js_set items (droppableId src) (js_map_index resetOrder remaining))
         (droppableId dest)
         (js_map_index resetOrder (snd (js_splice (index dest) 0 [moving] target)))"
    by (rule dropCommit_InrE)
  let ?items1 = "js_set items (droppableId src) (js_map_index resetOrder remaining)"
  from js_splice_parts [of "index src" 1 "[]" sourceItems] removed obtain s dc where
    "moving # rest = take dc (drop s sourceItems)" "dc \<le> 1"
    by auto
  moreover have "length (take dc (drop s sourceItems)) \<le> dc"
    by simp
  ultimately have "length (moving # rest) \<le> 1"
    by (simp only: order_trans)
  then have rest: "rest = []"
    by simp
  from removed have "mset (moving # rest) + mset remaining = mset sourceItems"
    by (rule js_splice_mset)
  then have "image_mset itemKey (mset remaining) + {#itemKey moving#} =
             image_mset itemKey (mset sourceItems)"
    by (simp add: rest flip: image_mset_add_mset)
  then have out: "mset (map itemKey (js_map_index resetOrder remaining)) + {#itemKey moving#} =
                  mset (map itemKey sourceItems)"
    by (simp add: itemKey_reranked)
  have "mset (allItemKeys ?items1) + mset (map itemKey sourceItems) =
          mset (allItemKeys items) + mset (map itemKey (js_map_index resetOrder remaining))"
    using assms(1) src by (rule mset_allItemKeys_js_set)
  then have m1: "mset (allItemKeys ?items1) + {#itemKey moving#} = mset (allItemKeys items)"
    using out by (rule mset_swap_out)
  obtain p where "js_splice (index dest) 0 [moving] target =
                    ([], take p target @ moving # drop p target)"
    using js_splice_insert_any [of target "index dest" moving] by blast
  then have "mset (map itemKey (js_map_index resetOrder
                (snd (js_splice (index dest) 0 [moving] target)))) =
             mset (map itemKey target) + {#itemKey moving#}"
    by (simp only: snd_conv itemKey_reranked mset_map_insert_at)
  moreover have "distinct (js_keys ?items1)"
    using assms(1) by (rule distinct_js_keys_js_set)
  then have "mset (allItemKeys items') + mset (map itemKey target) =
          mset (allItemKeys ?items1) +
          mset (map itemKey (js_map_index resetOrder
                  (snd (js_splice (index dest) 0 [moving] target))))"
    unfolding items' using tgt by (rule mset_allItemKeys_js_set)
  ultimately have "mset (allItemKeys items') = mset (allItemKeys ?items1) + {#itemKey moving#}"
    by (rule mset_swap_in [rotated -1])
  with m1 show ?thesis
    by simp
qed

lemma onDragEnd_item_keys:
  assumes "distinct (js_keys (arrangedItems b))" and "onDragEnd b ev = Inr (announced, b')"
  shows "mset (allItemKeys (arrangedItems b')) = mset (allItemKeys (arrangedItems b))"
proof (cases "destination ev")
  case None
  with assms(2) show ?thesis
    by (auto simp: onDragEnd_def split: sum.splits)
next
  case (Some dest)
  with assms(2) obtain items' where
    "dropCommit (arrangedItems b) (source ev) dest = Inr items'"
    "b' = b\<lparr>arrangedItems := items', placeholderPosition := None\<rparr>"
    by (rule onDragEnd_InrE)
  with assms(1) show ?thesis
    by (simp add: dropCommit_item_keys)
qed

section \<open>Preparing the items\<close>

lemma lane_withItemKey [simp]: "lane (withItemKey item k) = lane item"
  by (simp add: withItemKey_def)

lemma hasOwnProperty_js_set:
  "hasOwnProperty (js_set obj k v) k' \<longleftrightarrow> k' = k \<or> hasOwnProperty obj k'"
  by (simp add: hasOwnProperty_def set_js_keys_js_set)

lemma js_get_js_assign:
  "js_get (js_assign obj k v) k' =
     (if k' = k \<and> k \<noteq> ''__proto__'' then Some v else js_get obj k')"
  by (simp add: js_assign_def js_get_js_set)

lemma hasOwnProperty_js_assign:
  "hasOwnProperty (js_assign obj k v) k' \<longleftrightarrow>
     (k' = k \<and> k \<noteq> ''__proto__'') \<or> hasOwnProperty obj k'"
  by (auto simp: js_assign_def hasOwnProperty_js_set)

lemma set_js_keys_js_assign:
  "set (js_keys (js_assign obj k v)) = set (js_keys obj) \<union> ({k} - {''__proto__''})"
  by (auto simp: js_assign_def set_js_keys_js_set)

lemma distinct_js_keys_js_assign:
  "distinct (js_keys obj) \<Longrightarrow> distinct (js_keys (js_assign obj k v))"
  by (simp add: js_assign_def distinct_js_keys_js_set)

text \<open>
  While no group is stored under \<^verbatim>\<open>hasOwnProperty\<close>, grouping an item appends it to the
  group of its lane; an item whose lane is \<^verbatim>\<open>__proto__\<close> is stored nowhere.
\<close>

lemma groupItem_plain:
  assumes "\<not> hasOwnProperty acc ''hasOwnProperty''" and "\<not> hasOwnProperty acc ''__proto__''"
    and "lane (snd entry) \<noteq> ''hasOwnProperty''"
  shows "\<exists>acc'. groupItem acc entry = Inr acc' \<and>
           \<not> hasOwnProperty acc' ''hasOwnProperty'' \<and> \<not> hasOwnProperty acc' ''__proto__'' \<and>
           (\<forall>k. js_get acc' k =
              (if lane (snd entry) = k \<and> k \<noteq> ''__proto__''
               then Some ((case js_get acc k of None \<Rightarrow> [] | Some laneItems \<Rightarrow> laneItems) @
                          [withItemKey (snd entry) (fst entry)])
               else js_get acc k))"
proof (cases "hasOwnProperty acc (lane (snd entry))")
  case True
  then obtain laneItems where got: "js_get acc (lane (snd entry)) = Some laneItems"
    by (auto simp: hasOwnProperty_iff)
  from True assms(2) have "lane (snd entry) \<noteq> ''__proto__''"
    by auto
  with assms True got show ?thesis
    by (auto simp: groupItem_def callHasOwnProperty_def Let_def js_get_js_set
        hasOwnProperty_js_set)
next
  case False
  then have "js_get acc (lane (snd entry)) = None"
    by (simp add: hasOwnProperty_iff)
  with assms False show ?thesis
    by (auto simp: groupItem_def callHasOwnProperty_def Let_def js_get_js_assign
        hasOwnProperty_js_assign)
qed

lemma js_reduce_groupItem:
  assumes "\<forall>entry \<in> set items. lane (snd entry) \<noteq> ''hasOwnProperty''"
    and "\<not> hasOwnProperty acc ''hasOwnProperty''" and "\<not> hasOwnProperty acc ''__proto__''"
  shows "\<exists>acc'. js_reduce groupItem items acc = Inr acc' \<and>
           \<not> hasOwnProperty acc' ''hasOwnProperty'' \<and>
           (\<forall>k. js_get acc' k =
              (if k = ''__proto__'' \<or> itemsOfLane items k = [] then js_get acc k
               else Some ((case js_get acc k of None \<Rightarrow> [] | Some laneItems \<Rightarrow> laneItems) @
                          itemsOfLane items k)))"
  using assms
proof (induction items arbitrary: acc)
  case Nil
  then show ?case
    by (simp add: itemsOfLane_def)
next
  case (Cons entry items)
  from Cons.prems obtain acc1 where
    step: "groupItem acc entry = Inr acc1" and
    inv: "\<not> hasOwnProperty acc1 ''hasOwnProperty''" "\<not> hasOwnProperty acc1 ''__proto__''" and
    get1: "\<And>k. js_get acc1 k =
              (if lane (snd entry) = k \<and> k \<noteq> ''__proto__''
               then Some ((case js_get acc k of None \<Rightarrow> [] | Some laneItems \<Rightarrow> laneItems) @
                          [withItemKey (snd entry) (fst entry)])
               else js_get acc k)"
    using groupItem_plain [of acc entry] by auto
  from Cons.prems have "\<forall>entry \<in> set items. lane (snd entry) \<noteq> ''hasOwnProperty''"
    by simp
  from Cons.IH [OF this inv] obtain acc' where
    rest: "js_reduce groupItem items acc1 = Inr acc'" and
    inv': "\<not> hasOwnProperty acc' ''hasOwnProperty''" and
    get': "\<And>k. js_get acc' k =
              (if k = ''__proto__'' \<or> itemsOfLane items k = [] then js_get acc1 k
               else Some ((case js_get acc1 k of None \<Rightarrow> [] | Some laneItems \<Rightarrow> laneItems) @
                          itemsOfLane items k))"
    by auto
  have "js_get acc' k =
          (if k = ''__proto__'' \<or> itemsOfLane (entry # items) k = [] then js_get acc k
           else Some ((case js_get acc k of None \<Rightarrow> [] | Some laneItems \<Rightarrow> laneItems) @
                      itemsOfLane (entry # items) k))" for k
    by (simp add: get' get1) (simp add: itemsOfLane_def)
  with step rest inv' show ?case
    by simp
qed

text \<open>The second reduction, over the lane keys.\<close>

lemma sortedGroup_plain:
  assumes "\<not> hasOwnProperty u ''hasOwnProperty''"
  shows "sortedGroup u acc laneKey =
           Inr (js_assign acc laneKey
                  (case js_get u laneKey of Some laneItems \<Rightarrow> sort_key order laneItems | None \<Rightarrow> []))"
  using assms
  by (auto simp: sortedGroup_def callHasOwnProperty_def hasOwnProperty_iff split: option.splits)

lemma js_reduce_sortedGroup:
  assumes "\<not> hasOwnProperty u ''hasOwnProperty''"
  shows "\<exists>r. js_reduce (sortedGroup u) ks acc = Inr r \<and>
           set (js_keys r) = set (js_keys acc) \<union> (set ks - {''__proto__''}) \<and>
           (distinct (js_keys acc) \<longrightarrow> distinct (js_keys r)) \<and>
           (\<forall>k. js_get r k =
              (if k \<in> set ks \<and> k \<noteq> ''__proto__''
               then Some (case js_get u k of Some laneItems \<Rightarrow> sort_key order laneItems | None \<Rightarrow> [])
               else js_get acc k))"
proof (induction ks arbitrary: acc)
  case Nil
  show ?case
    by simp
next
  case (Cons laneKey ks)
  let ?acc1 = "js_assign acc laneKey
                 (case js_get u laneKey of Some laneItems \<Rightarrow> sort_key order laneItems | None \<Rightarrow> [])"
  from Cons.IH [of ?acc1] obtain r where
    r: "js_reduce (sortedGroup u) ks ?acc1 = Inr r"
       "set (js_keys r) = set (js_keys ?acc1) \<union> (set ks - {''__proto__''})"
       "distinct (js_keys ?acc1) \<longrightarrow> distinct (js_keys r)"
       "\<And>k. js_get r k =
              (if k \<in> set ks \<and> k \<noteq> ''__proto__''
               then Some (case js_get u k of Some laneItems \<Rightarrow> sort_key order laneItems | None \<Rightarrow> [])
               else js_get ?acc1 k)"
    by auto
  have "js_reduce (sortedGroup u) (laneKey # ks) acc = Inr r"
    using assms r(1) by (simp add: sortedGroup_plain)
  moreover have "set (js_keys r) = set (js_keys acc) \<union> (set (laneKey # ks) - {''__proto__''})"
    by (auto simp: r(2) set_js_keys_js_assign)
  moreover have "distinct (js_keys acc) \<longrightarrow> distinct (js_keys r)"
    using r(3) by (simp add: distinct_js_keys_js_assign)
  moreover have "js_get r k =
              (if k \<in> set (laneKey # ks) \<and> k \<noteq> ''__proto__''
               then Some (case js_get u k of Some laneItems \<Rightarrow> sort_key order laneItems | None \<Rightarrow> [])
               else js_get acc k)" for k
    by (simp add: r(4) js_get_js_assign)
  ultimately show ?case
    by blast
qed

text \<open>
  When no item names the lane \<^verbatim>\<open>hasOwnProperty\<close>, \<^verbatim>\<open>prepareBoardItems\<close> returns, and the
  prepared items are the sorted groups of the lanes.
\<close>

lemma prepareBoardItems_prepared:
  assumes "\<forall>entry \<in> set items. lane (snd entry) \<noteq> ''hasOwnProperty''"
  shows "\<exists>r. prepareBoardItems items lanes = Inr r \<and>
           set (js_keys r) = set (js_keys lanes) - {''__proto__''} \<and>
           distinct (js_keys r) \<and>
           (\<forall>k. js_get r k =
              (if k \<in> set (js_keys lanes) \<and> k \<noteq> ''__proto__''
               then Some (sort_key order (itemsOfLane items k)) else None))"
proof -
  have empty: "\<not> hasOwnProperty ([] :: IPreparedBoardItems) ''hasOwnProperty''"
              "\<not> hasOwnProperty ([] :: IPreparedBoardItems) ''__proto__''"
    by (simp_all add: hasOwnProperty_def js_keys_def)
  from js_reduce_groupItem [OF assms empty] obtain u where
    u: "js_reduce groupItem items [] = Inr u" "\<not> hasOwnProperty u ''hasOwnProperty''" and
    get_u: "\<And>k. js_get u k =
              (if k = ''__proto__'' \<or> itemsOfLane items k = [] then None
               else Some (itemsOfLane items k))"
    by (auto simp: js_get_def)
  from js_reduce_sortedGroup [OF u(2), of "js_keys lanes" "[]"] obtain r where
    r: "js_reduce (sortedGroup u) (js_keys lanes) [] = Inr r"
       "set (js_keys r) = set (js_keys lanes) - {''__proto__''}"
       "distinct (js_keys r)"
       "\<And>k. js_get r k =
              (if k \<in> set (js_keys lanes) \<and> k \<noteq> ''__proto__''
               then Some (case js_get u k of Some laneItems \<Rightarrow> sort_key order laneItems | None \<Rightarrow> [])
               else None)"
    by (auto simp: js_keys_def js_get_def)
  have "prepareBoardItems items lanes = Inr r"
    by (simp add: prepareBoardItems_def u(1) r(1))
  moreover have "js_get r k =
              (if k \<in> set (js_keys lanes) \<and> k \<noteq> ''__proto__''
               then Some (sort_key order (itemsOfLane items k)) else None)" for k
    by (simp add: r(4) get_u)
  ultimately show ?thesis
    using r(2,3) by blast
qed

text \<open>
  A group stored under \<^verbatim>\<open>hasOwnProperty\<close> makes the next call of the method throw: the
  grouping of a later item, or else the lookup for the first lane.
\<close>

lemma js_reduce_groupItem_shadowed:
  assumes "hasOwnProperty acc ''hasOwnProperty''"
  shows "js_reduce groupItem items acc = (if items = [] then Inr acc else Inl TypeError)"
  using assms by (cases items) (simp_all add: groupItem_def callHasOwnProperty_def Let_def)

lemma groupItem_shadows:
  assumes "lane (snd entry) = ''hasOwnProperty''" and "\<not> hasOwnProperty acc ''hasOwnProperty''"
  shows "\<exists>acc'. groupItem acc entry = Inr acc' \<and> hasOwnProperty acc' ''hasOwnProperty''"
  using assms
  by (simp add: groupItem_def callHasOwnProperty_def Let_def hasOwnProperty_js_assign)

lemma js_reduce_groupItem_shadows:
  assumes "\<exists>entry \<in> set items. lane (snd entry) = ''hasOwnProperty''"
    and "\<not> hasOwnProperty acc ''__proto__''"
  shows "js_reduce groupItem items acc = Inl TypeError \<or>
         (\<exists>acc'. js_reduce groupItem items acc = Inr acc' \<and> hasOwnProperty acc' ''hasOwnProperty'')"
  using assms
proof (induction items arbitrary: acc)
  case Nil
  then show ?case
    by simp
next
  case (Cons entry items)
  show ?case
  proof (cases "hasOwnProperty acc ''hasOwnProperty''")
    case True
    then show ?thesis
      by (simp only: js_reduce_groupItem_shadowed) simp
  next
    case unshadowed: False
    show ?thesis
    proof (cases "lane (snd entry) = ''hasOwnProperty''")
      case True
      with unshadowed obtain acc1 where
        "groupItem acc entry = Inr acc1" "hasOwnProperty acc1 ''hasOwnProperty''"
        using groupItem_shadows by blast
      then show ?thesis
        using js_reduce_groupItem_shadowed [of acc1 items] by simp
    next
      case False
      with unshadowed Cons.prems(2) obtain acc1 where
        step: "groupItem acc entry = Inr acc1" "\<not> hasOwnProperty acc1 ''__proto__''"
        using groupItem_plain [of acc entry] by blast
      from False Cons.prems(1) have "\<exists>entry \<in> set items. lane (snd entry) = ''hasOwnProperty''"
        by auto
      from Cons.IH [OF this step(2)] step(1) show ?thesis
        by simp
    qed
  qed
qed

lemma prepareBoardItems_shadowed:
  assumes "\<exists>entry \<in> set items. lane (snd entry) = ''hasOwnProperty''" and "lanes \<noteq> []"
  shows "prepareBoardItems items lanes = Inl TypeError"
proof -
  have "\<not> hasOwnProperty ([] :: IPreparedBoardItems) ''__proto__''"
    by (simp add: hasOwnProperty_def js_keys_def)
  from js_reduce_groupItem_shadows [OF assms(1) this]
  consider "js_reduce groupItem items [] = Inl TypeError"
    | u where "js_reduce groupItem items [] = Inr u" "hasOwnProperty u ''hasOwnProperty''"
    by blast
  then show ?thesis
  proof cases
    case 1
    then show ?thesis
      by (simp add: prepareBoardItems_def)
  next
    case 2
    from assms(2) obtain laneKey ks where "js_keys lanes = laneKey # ks"
      by (cases lanes) (auto simp: js_keys_def)
    with 2 show ?thesis
      by (simp add: prepareBoardItems_def sortedGroup_def callHasOwnProperty_def)
  qed
qed

text \<open>
  For items that name no lane \<^verbatim>\<open>hasOwnProperty\<close> and lanes without the key
  \<^verbatim>\<open>__proto__\<close>: the keys of the prepared items are exactly the keys of the lanes, each
  once, and the value at a lane key is the sequence of all items whose \<^verbatim>\<open>lane\<close> is that
  key, each with its item key, sorted by \<^verbatim>\<open>order\<close> (items of equal order stay in the
  order of the item mapping); a lane no item refers to has the empty sequence.
\<close>

lemma prepareBoardItems_groups:
  assumes "\<forall>entry \<in> set items. lane (snd entry) \<noteq> ''hasOwnProperty''"
    and "''__proto__'' \<notin> set (js_keys lanes)"
  shows "\<exists>r. prepareBoardItems items lanes = Inr r \<and>
           set (js_keys r) = set (js_keys lanes) \<and> distinct (js_keys r) \<and>
           (\<forall>k \<in> set (js_keys lanes).
              \<exists>xs. js_get r k = Some xs \<and>
                   xs = sort_key order (itemsOfLane items k) \<and>
                   mset xs = mset (itemsOfLane items k) \<and>
                   sorted (map order xs) \<and>
                   (itemsOfLane items k = [] \<longrightarrow> xs = []))"
proof -
  from prepareBoardItems_prepared [OF assms(1), of lanes] obtain r where
    r: "prepareBoardItems items lanes = Inr r"
       "set (js_keys r) = set (js_keys lanes) - {''__proto__''}"
       "distinct (js_keys r)"
       "\<And>k. js_get r k =
              (if k \<in> set (js_keys lanes) \<and> k \<noteq> ''__proto__''
               then Some (sort_key order (itemsOfLane items k)) else None)"
    by blast
  from assms(2) have "k \<noteq> ''__proto__''" if "k \<in> set (js_keys lanes)" for k
    using that by auto
  with r assms(2) show ?thesis
    by auto
qed

text \<open>
  An item whose \<^verbatim>\<open>lane\<close> is not a key of the lanes, among items that name no lane
  \<^verbatim>\<open>hasOwnProperty\<close>: \<^verbatim>\<open>prepareBoardItems\<close> returns, its result has no entry for that lane
  key, and the item is in no sequence of the result.
\<close>

lemma prepareBoardItems_orphan:
  assumes "\<forall>entry \<in> set items. lane (snd entry) \<noteq> ''hasOwnProperty''"
    and "(key, item) \<in> set items" and "lane item \<notin> set (js_keys lanes)"
  shows "\<exists>r. prepareBoardItems items lanes = Inr r \<and>
           js_get r (lane item) = None \<and>
           (\<forall>(k, xs) \<in> set r. \<forall>x \<in> set xs. lane x \<noteq> lane item \<and> x \<noteq> withItemKey item key)"
proof -
  from prepareBoardItems_prepared [OF assms(1), of lanes] obtain r where
    r: "prepareBoardItems items lanes = Inr r"
       "distinct (js_keys r)"
       "\<And>k. js_get r k =
              (if k \<in> set (js_keys lanes) \<and> k \<noteq> ''__proto__''
               then Some (sort_key order (itemsOfLane items k)) else None)"
    by blast
  have "lane x \<noteq> lane item \<and> x \<noteq> withItemKey item key"
    if entry: "(k, xs) \<in> set r" and x: "x \<in> set xs" for k xs x
  proof -
    from r(2) entry have "js_get r k = Some xs"
      by (simp add: js_get_def js_keys_def)
    then have "k \<in> set (js_keys lanes)" "xs = sort_key order (itemsOfLane items k)"
      by (auto simp: r(3) split: if_splits)
    with x have "lane x = k" "k \<noteq> lane item"
      using assms(3) by (auto simp: itemsOfLane_def)
    then show ?thesis
      by auto
  qed
  with r(1) assms(3) show ?thesis
    by (auto simp: r(3))
qed

lemma prepareBoardItems_example:
  "prepareBoardItems exampleItems exampleLanes =
     Inr [(''A'', [\<lparr>lane = ''A'', title = ''two'', order = 0, itemKey = ''i2''\<rparr>,
                   \<lparr>lane = ''A'', title = ''one'', order = 1, itemKey = ''i1''\<rparr>]),
          (''B'', [])]"
  by (simp add: prepareBoardItems_def exampleItems_def exampleLanes_def groupItem_def
      sortedGroup_def callHasOwnProperty_def js_assign_def withItemKey_def js_get_def js_set_def
      js_keys_def hasOwnProperty_def is_array_index_def is_digit_def Let_def)

text \<open>
  C7. \<^verbatim>\<open>prepareBoardItems\<close> does not return a mapping for every item mapping. With an
  item of the lane \<^verbatim>\<open>hasOwnProperty\<close> followed by another item, grouping the second item
  calls \<^verbatim>\<open>acc.hasOwnProperty\<close>, which by then is the group of the first item, and throws.
  For item mappings without such an item the prepared items are the sorted groups of the
  lanes (\<open>prepareBoardItems_groups\<close>).
\<close>

theorem prepareBoardItems_throws_grouping:
  "js_reduce groupItem exampleShadowingItems [] = Inl TypeError \<and>
   prepareBoardItems exampleShadowingItems exampleLanes = Inl TypeError"
  by (simp add: prepareBoardItems_def exampleShadowingItems_def groupItem_def
      callHasOwnProperty_def js_assign_def withItemKey_def js_get_def js_set_def
      js_keys_def hasOwnProperty_def is_array_index_def is_digit_def Let_def)

text \<open>
  C8. An item whose lane is not a key of the lanes is not always absorbed. A single item
  of the lane \<^verbatim>\<open>hasOwnProperty\<close>, which is not a key of the lanes, is grouped without an
  error, and then the lookup for the first lane key calls
  \<^verbatim>\<open>unsortedPreparedBoardItems.hasOwnProperty\<close>, which is the group of that item, and
  throws. When no item names that lane, an item of an unknown lane is absorbed
  (\<open>prepareBoardItems_orphan\<close>).
\<close>

theorem prepareBoardItems_throws_orphan:
  "js_get exampleLanes ''hasOwnProperty'' = None \<and>
   js_reduce groupItem exampleShadowingItem [] =
     Inr [(''hasOwnProperty'',
           [\<lparr>lane = ''hasOwnProperty'', title = ''one'', order = 0, itemKey = ''i1''\<rparr>])] \<and>
   prepareBoardItems exampleShadowingItem exampleLanes = Inl TypeError"
  by (simp add: prepareBoardItems_def exampleShadowingItem_def exampleLanes_def groupItem_def
      sortedGroup_def callHasOwnProperty_def js_assign_def withItemKey_def js_get_def js_set_def
      js_keys_def hasOwnProperty_def is_array_index_def is_digit_def Let_def)

text \<open>
  The items prepared from an item mapping carry pairwise different keys.
\<close>

lemma itemKey_withItemKey [simp]: "itemKey (withItemKey item k) = k"
  by (simp add: withItemKey_def)

lemma itemKeys_itemsOfLane:
  "map itemKey (itemsOfLane items k) = map fst (filter (\<lambda>entry. lane (snd entry) = k) items)"
  by (simp add: itemsOfLane_def comp_def)

lemma distinct_concat_groups:
  assumes "distinct (map fst r)"
    and "\<forall>(k, xs) \<in> set r. xs = F k"
    and "\<forall>k. distinct (map itemKey (F k))"
    and "\<forall>k k'. k \<noteq> k' \<longrightarrow> set (map itemKey (F k)) \<inter> set (map itemKey (F k')) = {}"
  shows "distinct (map itemKey (concat (map snd r)))"
  using assms(1,2)
proof (induction r)
  case Nil
  then show ?case by simp
next
  case (Cons entry r)
  obtain k xs where entry: "entry = (k, xs)"
    by (cases entry)
  with Cons.prems have xs: "xs = F k" and k: "k \<notin> fst ` set r"
    by auto
  have "set (map itemKey xs) \<inter> set (map itemKey (concat (map snd r))) = {}"
  proof (rule ccontr)
    assume "set (map itemKey xs) \<inter> set (map itemKey (concat (map snd r))) \<noteq> {}"
    then obtain key where
      left: "key \<in> set (map itemKey xs)" and
      right: "key \<in> set (map itemKey (concat (map snd r)))"
      by blast
    from right obtain y where "y \<in> set (concat (map snd r))" "itemKey y = key"
      by auto
    then obtain k' ys where other: "(k', ys) \<in> set r" "y \<in> set ys"
      by auto
    with Cons.prems(2) have ys: "ys = F k'"
      by auto
    from other(1) k have "k' \<noteq> k"
      by force
    moreover from other(2) \<open>itemKey y = key\<close> have "key \<in> set (map itemKey (F k'))"
      by (auto simp: ys)
    moreover from left have "key \<in> set (map itemKey (F k))"
      by (simp add: xs)
    ultimately show False
      using assms(4) by blast
  qed
  moreover from xs assms(3) have "distinct (map itemKey xs)"
    by simp
  moreover from Cons have "distinct (map itemKey (concat (map snd r)))"
    by simp
  ultimately show ?case
    by (simp add: entry)
qed

lemma distinct_allItemKeys_prepareBoardItems:
  assumes "distinct (js_keys items)"
    and "\<forall>entry \<in> set items. lane (snd entry) \<noteq> ''hasOwnProperty''"
    and "prepareBoardItems items lanes = Inr r"
  shows "distinct (allItemKeys r)"
  unfolding allItemKeys_def
proof (rule distinct_concat_groups [where F = "\<lambda>k. sort_key order (itemsOfLane items k)"])
  from prepareBoardItems_prepared [OF assms(2), of lanes] assms(3) have
    r: "distinct (js_keys r)"
       "\<And>k. js_get r k =
              (if k \<in> set (js_keys lanes) \<and> k \<noteq> ''__proto__''
               then Some (sort_key order (itemsOfLane items k)) else None)"
    by auto
  from r(1) show "distinct (map fst r)"
    by (simp add: js_keys_def)
  then have "xs = sort_key order (itemsOfLane items k)" if "(k, xs) \<in> set r" for k xs
  proof -
    from that \<open>distinct (map fst r)\<close> have "js_get r k = Some xs"
      by (simp add: js_get_def)
    then show ?thesis
      by (simp add: r(2) split: if_splits)
  qed
  then show "\<forall>(k, xs) \<in> set r. xs = sort_key order (itemsOfLane items k)"
    by blast
  have keys: "set (map itemKey (sort_key order (itemsOfLane items k))) =
              fst ` {entry \<in> set items. lane (snd entry) = k}" for k
  proof -
    have "set (map itemKey (sort_key order (itemsOfLane items k))) =
            set (map itemKey (itemsOfLane items k))"
      by simp
    also have "\<dots> = set (map fst (filter (\<lambda>entry. lane (snd entry) = k) items))"
      by (simp only: itemKeys_itemsOfLane)
    finally show ?thesis
      by simp
  qed
  from assms have "distinct (map fst (filter (\<lambda>entry. lane (snd entry) = k) items))" for k
    by (simp add: js_keys_def distinct_map_filter)
  then have "distinct (map itemKey (itemsOfLane items k))" for k
    by (simp only: itemKeys_itemsOfLane)
  moreover have "mset (map itemKey (sort_key order (itemsOfLane items k))) =
                 mset (map itemKey (itemsOfLane items k))" for k
    by simp
  ultimately show "\<forall>k. distinct (map itemKey (sort_key order (itemsOfLane items k)))"
    using mset_eq_imp_distinct_iff by blast
  show "\<forall>k k'. k \<noteq> k' \<longrightarrow>
          set (map itemKey (sort_key order (itemsOfLane items k))) \<inter>
          set (map itemKey (sort_key order (itemsOfLane items k'))) = {}"
  proof (intro allI impI)
    fix k k' :: string
    assume "k \<noteq> k'"
    have "fst ` {entry \<in> set items. lane (snd entry) = k} \<inter>
          fst ` {entry \<in> set items. lane (snd entry) = k'} = {}"
    proof (rule ccontr)
      assume "fst ` {entry \<in> set items. lane (snd entry) = k} \<inter>
              fst ` {entry \<in> set items. lane (snd entry) = k'} \<noteq> {}"
      then obtain key item item' where
        "(key, item) \<in> set items" "(key, item') \<in> set items"
        "lane item = k" "lane item' = k'"
        by auto blast
      moreover from assms have "distinct (map fst items)"
        by (simp add: js_keys_def)
      ultimately have "item = item'" "lane item = k" "lane item' = k'"
        by (simp_all add: eq_key_imp_eq_value)
      with \<open>k \<noteq> k'\<close> show False
        by simp
    qed
    then show "set (map itemKey (sort_key order (itemsOfLane items k))) \<inter>
          set (map itemKey (sort_key order (itemsOfLane items k'))) = {}"
      by (simp only: keys)
  qed
qed

section \<open>Moving a lane\<close>


lemma js_indexOf_absent: "x \<notin> set xs \<Longrightarrow> js_indexOf xs x = - 1"
  by (induction xs) (auto simp: Let_def)

lemma js_indexOf_present:
  "x \<in> set xs \<Longrightarrow> 0 \<le> js_indexOf xs x \<and> xs ! nat (js_indexOf xs x) = x"
  by (induction xs) (auto simp: Let_def nat_add_distrib)























lemma moveLaneKeys_numbered:
  "moveLaneKeys [''1'', ''2''] ''1'' 1 = [Some ''2'', Some ''1'']"
proof -
  have "js_indexOf [''1'', ''2''] ''1'' = 0"
    by simp
  moreover have "js_splice 0 1 [] (map Some [''1'', ''2'']) = ([Some ''1''], [Some ''2''])"
    by (simp add: js_splice_def Let_def)
  moreover have "js_splice (0 + 1) 0 [Some ''1''] [Some ''2''] = ([], [Some ''2'', Some ''1''])"
    by (simp add: js_splice_def Let_def)
  ultimately show ?thesis
    unfolding moveLaneKeys_def Let_def by (simp only: prod.case list.case snd_conv)
qed

text \<open>
  Lane keys that are array indices keep their numeric order whatever the order of insertion:
  \<^verbatim>\<open>moveLane\<close> does not move them.
\<close>

lemma moveLane_numbered_unmoved:
  "js_keys exampleNumberedLanes = [''1'', ''2''] \<and>
   js_keys (moveLane exampleNumberedLanes ''1'' 1) = [''1'', ''2'']"
proof -
  have "is_array_index ''1''" "is_array_index ''2''" "index_value ''1'' = 1" "index_value ''2'' = 2"
    by (simp_all add: is_array_index_def is_digit_def index_value_def)
  moreover have "js_keys exampleNumberedLanes = [''1'', ''2'']"
    by (simp add: exampleNumberedLanes_def js_keys_def)
  ultimately show ?thesis
    by (simp add: moveLane_def moveLaneKeys_numbered)
       (simp add: js_keys_def js_set_def hasOwnProperty_def toPropertyKey_def)
qed

text \<open>With no lane at all, the rebuilt object has the single key \<^verbatim>\<open>"undefined"\<close>.\<close>

lemma moveLane_empty_board:
  "moveLane [] laneKey delta = [(''undefined'', None)]"
proof -
  have "js_splice (- 1) 1 [] ([] :: string option list) = ([], [])"
    by (simp add: js_splice_def)
  moreover have "js_splice (- 1 + delta) 0 [None] ([] :: string option list) = ([], [None])"
    by (simp add: js_splice_def)
  ultimately have "moveLaneKeys [] laneKey delta = [None]"
    unfolding moveLaneKeys_def Let_def by simp
  moreover have "\<not> is_array_index ''undefined''"
    by (simp add: is_array_index_def is_digit_def)
  ultimately show ?thesis
    by (simp add: moveLane_def js_keys_def js_set_def hasOwnProperty_def toPropertyKey_def
        js_get_def)
qed



section \<open>Adding a lane\<close>

lemma digits_read_back:
  "list_all (\<lambda>m. (of_char (''0123456789'' ! m) :: nat) - 48 = m) [0..<10]"
  by code_simp

lemma digit_value_of_digit:
  assumes "n < 10"
  shows "(of_char (''0123456789'' ! n) :: nat) - 48 = n"
proof -
  from assms have "n \<in> set [0..<10]"
    by simp
  with digits_read_back show ?thesis
    unfolding list_all_iff by blast
qed

lemma index_value_snoc:
  "index_value (s @ [c]) = 10 * index_value s + ((of_char c :: nat) - 48)"
  by (simp add: index_value_def)

lemma index_value_string_of_nat: "index_value (string_of_nat n) = n"
proof (induction n rule: string_of_nat.induct)
  case (1 n)
  show ?case
  proof (cases "n < 10")
    case True
    then show ?thesis
      by (subst string_of_nat.simps) (simp add: index_value_def digit_value_of_digit)
  next
    case False
    with "1.IH" have "index_value (string_of_nat (n div 10)) = n div 10"
      by simp
    with False show ?thesis
      by (subst string_of_nat.simps) (simp add: index_value_snoc digit_value_of_digit)
  qed
qed

text \<open>
  Reading a generated numeral back gives the counter, so \<^verbatim>\<open>uniqueId\<close> never returns the
  same key for two values of its counter.
\<close>

lemma uniqueId_never_repeats:
  "idCounter \<noteq> idCounter' \<Longrightarrow>
   fst (uniqueId prefix idCounter) \<noteq> fst (uniqueId prefix idCounter')"
proof
  assume differ: "idCounter \<noteq> idCounter'"
    and "fst (uniqueId prefix idCounter) = fst (uniqueId prefix idCounter')"
  then have "string_of_nat (Suc idCounter) = string_of_nat (Suc idCounter')"
    by (simp add: uniqueId_def)
  then have "index_value (string_of_nat (Suc idCounter)) =
             index_value (string_of_nat (Suc idCounter'))"
    by simp
  with differ show False
    by (simp only: index_value_string_of_nat)
qed

lemma generated_key_not_array_index: "\<not> is_array_index (fst (uniqueId ''sl'' idCounter))"
  by (simp add: uniqueId_def is_array_index_def is_digit_def)

text \<open>
  C6, as amended. With a generated key that is not yet a lane key, a non-empty value adds
  exactly one lane, with that key and the value as title, after all existing lanes, gives the key the
  empty item sequence and leaves every other item sequence alone, clears the adding-lane
  flag and advances the counter of \<^verbatim>\<open>uniqueId\<close>; the empty value leaves lanes, items and
  counter as they are. The generated key is \<^verbatim>\<open>sl\<close> followed by the numeral of the
  advanced counter, a key \<^verbatim>\<open>uniqueId\<close> generates at no other value of its counter. Blur
  and Enter submit the value of the input, Escape submits the empty string.
\<close>

theorem exitPendingLane_adds_lane:
  assumes "newLaneKey = fst (uniqueId ''sl'' idCounter)"
    and "newLaneKey \<notin> set (js_keys (arrangedLanes b))"
  shows "(v \<noteq> [] \<longrightarrow>
            arrangedLanes (snd (exitPendingLane idCounter b v)) =
              arrangedLanes b @ [(newLaneKey, \<lparr>TBoardLane.title = v\<rparr>)] \<and>
            js_get (arrangedItems (snd (exitPendingLane idCounter b v))) newLaneKey = Some [] \<and>
            (\<forall>k. k \<noteq> newLaneKey \<longrightarrow>
               js_get (arrangedItems (snd (exitPendingLane idCounter b v))) k =
                 js_get (arrangedItems b) k) \<and>
            (newLaneKey \<notin> set (js_keys (arrangedItems b)) \<longrightarrow>
               arrangedItems (snd (exitPendingLane idCounter b v)) =
                 arrangedItems b @ [(newLaneKey, [])]) \<and>
            addingLane (snd (exitPendingLane idCounter b v)) = False \<and>
            fst (exitPendingLane idCounter b v) = Suc idCounter) \<and>
         arrangedLanes (snd (exitPendingLane idCounter b [])) = arrangedLanes b \<and>
         arrangedItems (snd (exitPendingLane idCounter b [])) = arrangedItems b \<and>
         addingLane (snd (exitPendingLane idCounter b [])) = False \<and>
         fst (exitPendingLane idCounter b []) = idCounter \<and>
         take 2 newLaneKey = ''sl'' \<and>
         index_value (drop 2 newLaneKey) = Suc idCounter \<and>
         (\<forall>idCounter'. idCounter' \<noteq> idCounter \<longrightarrow>
            fst (uniqueId ''sl'' idCounter') \<noteq> newLaneKey) \<and>
         pendingLaneInput idCounter b (Blur v) = exitPendingLane idCounter b v \<and>
         pendingLaneInput idCounter b (KeyDown ''Enter'' v) = exitPendingLane idCounter b v \<and>
         pendingLaneInput idCounter b (KeyDown ''Escape'' v) = exitPendingLane idCounter b []"
proof -
  have key: "\<not> is_array_index newLaneKey"
    unfolding assms(1) by (rule generated_key_not_array_index)
  have filled: "exitPendingLane idCounter b v =
      (Suc idCounter,
       b\<lparr>arrangedLanes := js_set (arrangedLanes b) newLaneKey \<lparr>TBoardLane.title = v\<rparr>,
         arrangedItems := js_set (arrangedItems b) newLaneKey [],
         addingLane := False\<rparr>)"
    if "v \<noteq> []"
    using that by (simp add: exitPendingLane_def assms(1) uniqueId_def)
  have lanes: "js_set (arrangedLanes b) newLaneKey \<lparr>TBoardLane.title = v\<rparr> =
                 arrangedLanes b @ [(newLaneKey, \<lparr>TBoardLane.title = v\<rparr>)]"
    using assms(2) key by (simp add: js_set_def hasOwnProperty_def)
  have items: "js_set (arrangedItems b) newLaneKey [] = arrangedItems b @ [(newLaneKey, [])]"
    if "newLaneKey \<notin> set (js_keys (arrangedItems b))"
    using that key by (simp add: js_set_def hasOwnProperty_def)
  have empty: "exitPendingLane idCounter b [] = (idCounter, b\<lparr>addingLane := False\<rparr>)"
    by (simp add: exitPendingLane_def)
  have shape: "take 2 newLaneKey = ''sl''" "index_value (drop 2 newLaneKey) = Suc idCounter"
    by (simp_all add: assms(1) uniqueId_def index_value_string_of_nat)
  have other: "fst (uniqueId ''sl'' idCounter') \<noteq> newLaneKey" if "idCounter' \<noteq> idCounter"
    for idCounter'
    unfolding assms(1) using that by (rule uniqueId_never_repeats)
  have events:
    "pendingLaneInput idCounter b (Blur v) = exitPendingLane idCounter b v"
    "pendingLaneInput idCounter b (KeyDown ''Enter'' v) = exitPendingLane idCounter b v"
    "pendingLaneInput idCounter b (KeyDown ''Escape'' v) = exitPendingLane idCounter b []"
    by (simp_all add: pendingLaneInput_def pendingLaneSubmits_def)
  have added: "v \<noteq> [] \<longrightarrow>
            arrangedLanes (snd (exitPendingLane idCounter b v)) =
              arrangedLanes b @ [(newLaneKey, \<lparr>TBoardLane.title = v\<rparr>)] \<and>
            js_get (arrangedItems (snd (exitPendingLane idCounter b v))) newLaneKey = Some [] \<and>
            (\<forall>k. k \<noteq> newLaneKey \<longrightarrow>
               js_get (arrangedItems (snd (exitPendingLane idCounter b v))) k =
                 js_get (arrangedItems b) k) \<and>
            (newLaneKey \<notin> set (js_keys (arrangedItems b)) \<longrightarrow>
               arrangedItems (snd (exitPendingLane idCounter b v)) =
                 arrangedItems b @ [(newLaneKey, [])]) \<and>
            addingLane (snd (exitPendingLane idCounter b v)) = False \<and>
            fst (exitPendingLane idCounter b v) = Suc idCounter"
    using filled lanes items by (simp add: js_get_js_set)
  from added empty shape other events show ?thesis
    by simp
qed

theorem exitPendingLane_adds_lane_witness:
  "fst (uniqueId ''sl'' 3) = ''sl4'' \<and>
   ''sl4'' \<notin> set (js_keys (arrangedLanes exampleBoard)) \<and>
   arrangedLanes (snd (exitPendingLane 3 exampleBoard ''Review'')) =
     arrangedLanes exampleBoard @ [(''sl4'', \<lparr>TBoardLane.title = ''Review''\<rparr>)] \<and>
   arrangedItems (snd (exitPendingLane 3 exampleBoard ''Review'')) =
     arrangedItems exampleBoard @ [(''sl4'', [])] \<and>
   fst (exitPendingLane 3 exampleBoard ''Review'') = 4 \<and>
   arrangedLanes (snd (exitPendingLane 3 exampleBoard [])) = arrangedLanes exampleBoard"
proof -
  have key: "''sl4'' = fst (uniqueId ''sl'' 3)"
    by (simp add: uniqueId_def string_of_nat.simps)
  have fresh: "''sl4'' \<notin> set (js_keys (arrangedLanes exampleBoard))"
              "''sl4'' \<notin> set (js_keys (arrangedItems exampleBoard))"
    by (simp_all add: exampleBoard_def js_keys_def)
  from exitPendingLane_adds_lane [OF key fresh(1), of "''Review''"] key fresh show ?thesis
    by simp
qed

text \<open>
  C6 as stated fails when the generated key is already a lane key. No lane is added: the
  lane of that key gets the submitted title and loses its items. On a board whose lane \<^verbatim>\<open>sl4\<close>, titled
  "Backlog", holds item 9, submitting "Review" with the counter at 3 leaves two lanes,
  \<^verbatim>\<open>sl4\<close> titled "Review" and empty.
\<close>

theorem exitPendingLane_collision_counterexample:
  "fst (uniqueId ''sl'' 3) = ''sl4'' \<and>
   js_get (arrangedItems exampleSupplied) ''sl4'' =
     Some [\<lparr>lane = ''sl4'', title = ''nine'', order = 0, itemKey = ''9''\<rparr>] \<and>
   exitPendingLane 3 exampleSupplied ''Review'' =
     (4, \<lparr>arrangedLanes =
             [(''A'', \<lparr>TBoardLane.title = ''To do''\<rparr>), (''sl4'', \<lparr>TBoardLane.title = ''Review''\<rparr>)],
           arrangedItems = [(''A'', []), (''sl4'', [])],
           addingLane = False,
           placeholderPosition = None\<rparr>)"
  by (simp add: exitPendingLane_def uniqueId_def string_of_nat.simps exampleSupplied_def
      js_get_def js_set_def hasOwnProperty_def js_keys_def)

text \<open>
  On a board none of whose lane keys \<^verbatim>\<open>uniqueId\<close> is still to generate, adding a lane
  keeps it so: lanes added one after the other never meet a key in use.
\<close>

lemma exitPendingLane_keeps_keys_ahead:
  assumes "\<forall>c \<ge> idCounter. fst (uniqueId ''sl'' c) \<notin> set (js_keys (arrangedLanes b))"
  shows "\<forall>c \<ge> fst (exitPendingLane idCounter b v).
           fst (uniqueId ''sl'' c) \<notin>
             set (js_keys (arrangedLanes (snd (exitPendingLane idCounter b v))))"
proof (cases "v = []")
  case True
  with assms show ?thesis
    by (simp add: exitPendingLane_def)
next
  case False
  then have run: "exitPendingLane idCounter b v =
      (Suc idCounter,
       b\<lparr>arrangedLanes :=
            js_set (arrangedLanes b) (fst (uniqueId ''sl'' idCounter)) \<lparr>TBoardLane.title = v\<rparr>,
         arrangedItems := js_set (arrangedItems b) (fst (uniqueId ''sl'' idCounter)) [],
         addingLane := False\<rparr>)"
    by (simp add: exitPendingLane_def uniqueId_def)
  have "fst (uniqueId ''sl'' c) \<notin>
          set (js_keys (js_set (arrangedLanes b) (fst (uniqueId ''sl'' idCounter))
                          \<lparr>TBoardLane.title = v\<rparr>))"
    if "Suc idCounter \<le> c" for c
  proof -
    from that have "c \<noteq> idCounter" "idCounter \<le> c"
      by simp_all
    with assms have "fst (uniqueId ''sl'' c) \<noteq> fst (uniqueId ''sl'' idCounter)"
                    "fst (uniqueId ''sl'' c) \<notin> set (js_keys (arrangedLanes b))"
      by (simp_all add: uniqueId_never_repeats)
    then show ?thesis
      by (simp add: set_js_keys_js_set)
  qed
  then show ?thesis
    by (simp add: run)
qed

lemma exitPendingLane_example:
  "exitPendingLane 3 (exampleBoard\<lparr>addingLane := True\<rparr>) ''Review'' = (4, exampleAdded)"
  by (simp add: exitPendingLane_def uniqueId_def string_of_nat.simps exampleBoard_def
      exampleAdded_def js_set_def hasOwnProperty_def js_keys_def is_array_index_def is_digit_def)

text \<open>When the generated key is already a lane key, the assignment overwrites that lane.\<close>

lemma exitPendingLane_overwrites_existing_key:
  "arrangedLanes (snd (exitPendingLane 3 exampleAdded ''Again'')) =
     [(''A'', \<lparr>TBoardLane.title = ''To do''\<rparr>), (''B'', \<lparr>TBoardLane.title = ''Doing''\<rparr>),
      (''C'', \<lparr>TBoardLane.title = ''Done''\<rparr>), (''sl4'', \<lparr>TBoardLane.title = ''Again''\<rparr>)]"
  by (simp add: exitPendingLane_def uniqueId_def string_of_nat.simps exampleAdded_def
      js_set_def hasOwnProperty_def js_keys_def)

end
